theory Spec2Isabelle
  imports Main
begin

section \<open>Go's \<open>time\<close> package, as far as the report service uses it\<close>

text \<open>
  The report service computes its windows with \<open>time.Time\<close> values. The standard library
  is not part of the repository, so its documented behaviour is written out here:
  the proleptic Gregorian calendar, an instant counted in nanoseconds from the zero time
  (January 1 of year 1, 00:00:00 UTC), and a location. A location is a fixed offset east
  of UTC in seconds (\<open>time.UTC\<close> is offset 0, \<open>time.FixedZone\<close> any other); zones with
  daylight-saving transitions are outside the model. Go keeps the seconds of an instant
  in 64 bits and wraps around; the model counts in unbounded integers, so it speaks for
  the instants and month counts on which Go's arithmetic does not overflow (years within
  292 billion of year 1), and says nothing beyond them.
\<close>

definition isLeap :: "int \<Rightarrow> bool" where
  "isLeap year = (year mod 4 = 0 \<and> (year mod 100 \<noteq> 0 \<or> year mod 400 = 0))"

text \<open>\<open>daysBefore m\<close> counts the days of a non-leap year before month \<open>m + 1\<close>.\<close>

definition daysBefore :: "int \<Rightarrow> int" where
  "daysBefore m =
     (if m = 0 then 0 else if m = 1 then 31 else if m = 2 then 59 else if m = 3 then 90
      else if m = 4 then 120 else if m = 5 then 151 else if m = 6 then 181
      else if m = 7 then 212 else if m = 8 then 243 else if m = 9 then 273
      else if m = 10 then 304 else if m = 11 then 334 else 365)"

text \<open>Days from the zero time to January 1 of \<open>year\<close>.\<close>

definition daysSinceEpoch :: "int \<Rightarrow> int" where
  "daysSinceEpoch year =
     (let y = year - 1 in 365 * y + y div 4 - y div 100 + y div 400)"

text \<open>
  The year of a day number and the day within that year, by cycles of 400, 100, 4 and 1
  years; the last year of a 400-year and of a 4-year cycle has one day more, which the
  two corrections \<open>n - n div 4\<close> account for.
\<close>

definition absYear :: "int \<Rightarrow> int \<times> int" where
  "absYear d =
     (let n400 = d div 146097;
          d1 = d - 146097 * n400;
          n100 = d1 div 36524;
          n100' = n100 - n100 div 4;
          d2 = d1 - 36524 * n100';
          n4 = d2 div 1461;
          d3 = d2 - 1461 * n4;
          n1 = d3 div 365;
          n1' = n1 - n1 div 4;
          yday = d3 - 365 * n1'
      in (400 * n400 + 100 * n100' + 4 * n4 + n1' + 1, yday))"

text \<open>
  Month (1 to 12) and day of the month from the day within the year: the leap day is
  set aside, the month is estimated as a thirty-first of the day and corrected by the
  table.
\<close>

definition monthDay :: "bool \<Rightarrow> int \<Rightarrow> int \<times> int" where
  "monthDay leap yday =
     (if leap \<and> yday = 31 + 29 - 1 then (2, 29)
      else
        let day = (if leap \<and> yday > 31 + 29 - 1 then yday - 1 else yday);
            month = day div 31;
            end = daysBefore (month + 1);
            (month', begin) =
               (if day \<ge> end then (month + 1, end) else (month, daysBefore month))
        in (month' + 1, day - begin + 1))"

text \<open>Year, month and day of the month of a day number.\<close>

definition absDate :: "int \<Rightarrow> int \<times> int \<times> int" where
  "absDate d =
     (let (year, yday) = absYear d;
          (month, day) = monthDay (isLeap year) yday
      in (year, month, day))"

record Time =
  nanos :: int    \<comment> \<open>nanoseconds since the zero time, in UTC\<close>
  loc :: int      \<comment> \<open>the location: seconds east of UTC\<close>

definition Nanosecond :: int where "Nanosecond = 1"
definition Second :: int where "Second = 1000000000 * Nanosecond"
definition Hour :: int where "Hour = 3600 * Second"

definition zeroTime :: Time where
  "zeroTime = \<lparr>nanos = 0, loc = 0\<rparr>"

definition IsZero :: "Time \<Rightarrow> bool" where
  "IsZero t = (nanos t = 0)"

definition After :: "Time \<Rightarrow> Time \<Rightarrow> bool" where
  "After t u = (nanos t > nanos u)"

definition Before :: "Time \<Rightarrow> Time \<Rightarrow> bool" where
  "Before t u = (nanos t < nanos u)"

definition Add :: "Time \<Rightarrow> int \<Rightarrow> Time" where
  "Add t d = t\<lparr>nanos := nanos t + d\<rparr>"

text \<open>
  \<open>Truncate\<close> rounds the instant down to a multiple of \<open>d\<close> since the zero time. It works
  on the absolute instant, not on the wall clock of the location.
\<close>

definition Truncate :: "Time \<Rightarrow> int \<Rightarrow> Time" where
  "Truncate t d = (if d \<le> 0 then t else t\<lparr>nanos := nanos t - nanos t mod d\<rparr>)"

text \<open>The wall clock of \<open>t\<close> in its location, in nanoseconds since the zero time.\<close>

definition wall :: "Time \<Rightarrow> int" where
  "wall t = nanos t + loc t * Second"

definition Date_of :: "Time \<Rightarrow> int \<times> int \<times> int" where
  "Date_of t = absDate (wall t div (24 * Hour))"

definition Year :: "Time \<Rightarrow> int" where
  "Year t = fst (Date_of t)"

definition Month :: "Time \<Rightarrow> int" where
  "Month t = fst (snd (Date_of t))"

definition Day :: "Time \<Rightarrow> int" where
  "Day t = snd (snd (Date_of t))"

text \<open>Hour, minute, second of the wall clock (\<open>Clock\<close>) and the nanosecond within the second.\<close>

definition Clock :: "Time \<Rightarrow> int \<times> int \<times> int" where
  "Clock t =
     (let s = (wall t mod (24 * Hour)) div Second
      in (s div 3600, (s mod 3600) div 60, s mod 60))"

definition Nanosecond_of :: "Time \<Rightarrow> int" where
  "Nanosecond_of t = wall t mod Second"

text \<open>
  \<open>time.Date\<close>: the month is normalised into 1..12, carrying into the year; day, hour,
  minute, second and nanosecond may be out of range and carry linearly.
  \<open>daysFromCivil\<close> is the day number of a date whose month is in 1..12.
\<close>

definition daysFromCivil :: "int \<Rightarrow> int \<Rightarrow> int \<Rightarrow> int" where
  "daysFromCivil year month day =
     daysSinceEpoch year + daysBefore (month - 1)
     + (if isLeap year \<and> month \<ge> 3 then 1 else 0) + (day - 1)"

definition Date :: "int \<Rightarrow> int \<Rightarrow> int \<Rightarrow> int \<Rightarrow> int \<Rightarrow> int \<Rightarrow> int \<Rightarrow> int \<Rightarrow> Time" where
  "Date year month day hour minute sec nsec l =
     (let m = month - 1;
          year' = year + m div 12;
          m' = m mod 12;
          d = daysFromCivil year' (m' + 1) day
      in \<lparr>nanos = (d * 86400 + hour * 3600 + minute * 60 + sec - l) * Second + nsec,
          loc = l\<rparr>)"

definition AddDate :: "Time \<Rightarrow> int \<Rightarrow> int \<Rightarrow> int \<Rightarrow> Time" where
  "AddDate t years months days =
     (let (year, month, day) = Date_of t;
          (hour, minute, sec) = Clock t
      in Date (year + years) (month + months) (day + days) hour minute sec
           (Nanosecond_of t) (loc t))"

text \<open>
  \<open>Format\<close> with the layout \<open>02/01/2006\<close>: day and month in two digits, the year in at
  least four, with a minus sign for a year before year 0.
\<close>

definition digit :: "nat \<Rightarrow> char" where
  "digit n = char_of (48 + n mod 10)"

fun itoa_nat :: "nat \<Rightarrow> string" where
  "itoa_nat n = (if n < 10 then [digit n] else itoa_nat (n div 10) @ [digit n])"

declare itoa_nat.simps [simp del]

definition appendInt :: "int \<Rightarrow> nat \<Rightarrow> string" where
  "appendInt x width =
     (let u = itoa_nat (nat \<bar>x\<bar>)
      in (if x < 0 then ''-'' else []) @ replicate (width - length u) CHR ''0'' @ u)"

definition Format_02_01_2006 :: "Time \<Rightarrow> string" where
  "Format_02_01_2006 t =
     appendInt (Day t) 2 @ ''/'' @ appendInt (Month t) 2 @ ''/'' @ appendInt (Year t) 4"

section \<open>Requests and errors\<close>

text \<open>
  \<open>dto.DateRangeRequest\<close> has three pointer fields; a nil pointer is \<open>None\<close>.
\<close>

record DateRangeRequest =
  FromDate :: "Time option"
  ToDate :: "Time option"
  Period :: "string option"

text \<open>
  The errors of the report service are Go \<open>error\<close> values told apart by their message.
  Each constructor stands for one message:
  \<^item> \<open>InvalidPeriod p\<close>: "invalid period specified: p"
  \<^item> \<open>InvalidDate\<close>: "invalid FromDate or ToDate (year < 1900)"
  \<^item> \<open>MissingDateRange\<close>: "fromDate and toDate are required if period is not specified"
  \<^item> \<open>InvertedRange\<close>: "from date must be before or equal to to date"
  \<^item> \<open>FutureDate\<close>: "to date cannot be in the future"
  \<^item> \<open>WindowTooWide n\<close>: "date range cannot exceed n months from current date"
  \<^item> \<open>NoData\<close>: "no data found to export for the specified date range"
  \<^item> \<open>DataSourceFailure e\<close>: the repository's error \<open>e\<close>, wrapped
  \<^item> \<open>RenderFailure e\<close>: the exporter's error \<open>e\<close>, wrapped
  \<^item> \<open>NilDereference\<close>: the run-time panic of a method call through a nil pointer.
\<close>

text \<open>
  An error of the database driver, \<open>sql.ErrNoRows\<close>, or an error wrapped with a message
  by \<open>fmt.Errorf("...: %w", err)\<close>.
\<close>

datatype db_error = DbError string | ErrNoRows | Wrap string db_error

datatype render_error = TitleStyleError | HeaderStyleError | DataStyleError | WriteBufferError

datatype error =
    InvalidPeriod string
  | InvalidDate
  | MissingDateRange
  | InvertedRange
  | FutureDate
  | WindowTooWide int
  | NoData
  | DataSourceFailure db_error
  | RenderFailure render_error
  | NilDereference

section \<open>The window resolver\<close>

text \<open>
  \<open>resolveDateRange\<close> reads the clock once; the reading is the parameter \<open>now\<close>.
  The explicit branch calls \<open>IsZero\<close> through the pointers \<open>request.FromDate\<close> and
  \<open>request.ToDate\<close> without a nil check; \<open>&&\<close> evaluates its right operand only when
  the left one is true.
\<close>

definition resolveExplicit :: "DateRangeRequest \<Rightarrow> error + (Time \<times> Time)" where
  "resolveExplicit request =
     (case FromDate request of
        None \<Rightarrow> Inl NilDereference
      | Some fromD \<Rightarrow>
          if IsZero fromD then Inl MissingDateRange
          else
            (case ToDate request of
               None \<Rightarrow> Inl NilDereference
             | Some toD \<Rightarrow>
                 if IsZero toD then Inl MissingDateRange
                 else if Year fromD < 1900 \<or> Year toD < 1900 then Inl InvalidDate
                 else Inr (Truncate fromD (24 * Hour),
                           Add (Truncate toD (24 * Hour)) (24 * Hour - Nanosecond))))"

definition resolvePeriod :: "Time \<Rightarrow> string \<Rightarrow> error + (Time \<times> Time)" where
  "resolvePeriod now period =
     (let currentEndOfDay = Add (Truncate now (24 * Hour)) (24 * Hour - Nanosecond) in
      if period = ''7days'' then
        Inr (Truncate (AddDate currentEndOfDay 0 0 (- 6)) (24 * Hour), currentEndOfDay)
      else if period = ''30days'' then
        Inr (Truncate (AddDate currentEndOfDay 0 0 (- 29)) (24 * Hour), currentEndOfDay)
      else if period = ''3months'' then
        Inr (Truncate (AddDate (Date (Year now) (Month now) 1 0 0 0 0 (loc now)) 0 (- 2) 0)
               (24 * Hour),
             currentEndOfDay)
      else if period = ''currentmonth'' then
        Inr (Date (Year now) (Month now) 1 0 0 0 0 (loc now), currentEndOfDay)
      else if period = ''lastmonth'' then
        (let firstOfThisMonth = Date (Year now) (Month now) 1 0 0 0 0 (loc now);
             toDate = Add firstOfThisMonth (- Nanosecond)
         in Inr (Date (Year toDate) (Month toDate) 1 0 0 0 0 (loc now), toDate))
      else Inl (InvalidPeriod period))"

definition resolveDateRange :: "Time \<Rightarrow> DateRangeRequest \<Rightarrow> error + (Time \<times> Time)" where
  "resolveDateRange now request =
     (case Period request of
        Some period \<Rightarrow>
          if period \<noteq> [] then resolvePeriod now period else resolveExplicit request
      | None \<Rightarrow> resolveExplicit request)"

text \<open>
  \<open>validateDateRange\<close> returns \<open>nil\<close> (\<open>None\<close>) for a window that passes. It reads the
  clock itself; the model gives it the same reading \<open>now\<close> as the resolver.
\<close>

definition validateDateRange :: "Time \<Rightarrow> int \<Rightarrow> Time \<Rightarrow> Time \<Rightarrow> error option" where
  "validateDateRange now maxMonths fromDate toDate =
     (if After fromDate toDate then Some InvertedRange
      else
        let nowEndOfDay = Add (Truncate now (24 * Hour)) (24 * Hour - Nanosecond) in
        if After toDate nowEndOfDay then Some FutureDate
        else
          let oldestAllowed = AddDate (Truncate now (24 * Hour)) 0 (- maxMonths) 0 in
          if Before (Truncate fromDate (24 * Hour)) oldestAllowed
          then Some (WindowTooWide maxMonths)
          else None)"

section \<open>The application database: permissions and the access log\<close>

text \<open>
  The tables the repositories query. A row of \<open>user_roles\<close> assigns a role to a user; a
  row of \<open>role_operations\<close> is a grant (\<open>models.RoleOperation\<close>). Field names carry a
  prefix where two tables share a column name. Every SQL statement may fail in the
  driver; the error it then returns is the argument \<open>err\<close> of the repository function
  (\<open>None\<close>: the statement runs).
\<close>

record Operation =
  opID :: int
  opName :: string
  opCode :: string
  opDescription :: string

record UserRole =
  ur_user_id :: int
  ur_role_id :: int

record RoleOperation =
  RoleID :: int
  roOperationID :: int
  CanAccess :: bool
  CreatedAt :: Time

record AccessLog =
  ID :: int
  UserID :: int
  OperationID :: int
  AccessTime :: Time
  SearchParams :: string
  IPAddress :: string
  Status :: string

record AppDB =
  operations :: "Operation list"
  user_roles :: "UserRole list"
  role_operations :: "RoleOperation list"
  access_logs :: "AccessLog list"
  next_log_id :: int    \<comment> \<open>the identity value the next inserted log row gets\<close>

text \<open>\<open>operationRepository.FindByCode\<close>: the first row with the code, or \<open>sql.ErrNoRows\<close>.\<close>

definition FindByCode :: "AppDB \<Rightarrow> db_error option \<Rightarrow> string \<Rightarrow> db_error + Operation" where
  "FindByCode db err code =
     (case err of
        Some e \<Rightarrow> Inl (Wrap ''error getting operation'' e)
      | None \<Rightarrow>
          (case filter (\<lambda>operation. opCode operation = code) (operations db) of
             [] \<Rightarrow> Inl (Wrap ''operation not found'' ErrNoRows)
           | operation # _ \<Rightarrow> Inr operation))"

text \<open>
  \<open>roleRepository.CheckUserOperationAccess\<close>: \<open>SELECT COUNT(*)\<close> over the join of
  \<open>user_roles\<close> and \<open>role_operations\<close> on the role id, restricted to the user, the
  operation and \<open>can_access = 1\<close>; the answer is \<open>count > 0\<close>.
\<close>

definition access_count :: "AppDB \<Rightarrow> int \<Rightarrow> int \<Rightarrow> nat" where
  "access_count db userID operationID =
     length
       (concat
          (map (\<lambda>ur. filter (\<lambda>ro. ur_role_id ur = RoleID ro
                               \<and> ur_user_id ur = userID
                               \<and> roOperationID ro = operationID
                               \<and> CanAccess ro)
                     (role_operations db))
               (user_roles db)))"

definition CheckUserOperationAccess ::
    "AppDB \<Rightarrow> db_error option \<Rightarrow> int \<Rightarrow> int \<Rightarrow> bool \<times> db_error option" where
  "CheckUserOperationAccess db err userID operationID =
     (case err of
        Some e \<Rightarrow> (False, Some (Wrap ''error checking operation access'' e))
      | None \<Rightarrow> (access_count db userID operationID > 0, None))"

text \<open>
  \<open>roleRepository.RemoveOperations\<close> deletes the role's grants to the listed operations.
  With no operation listed the statement it builds ends in \<open>IN ()\<close>, which the server
  rejects.
\<close>

definition RemoveOperations :: "AppDB \<Rightarrow> db_error option \<Rightarrow> int \<Rightarrow> int list \<Rightarrow> db_error option \<times> AppDB" where
  "RemoveOperations db err roleID operationIDs =
     (case err of
        Some e \<Rightarrow> (Some (Wrap ''error removing operations'' e), db)
      | None \<Rightarrow>
          if operationIDs = []
          then (Some (Wrap ''error removing operations'' (DbError ''syntax error near )'')), db)
          else
            (None,
             db\<lparr>role_operations :=
                   filter (\<lambda>ro. \<not> (RoleID ro = roleID \<and> roOperationID ro \<in> set operationIDs))
                     (role_operations db)\<rparr>))"

text \<open>
  \<open>operationRepository.LogAccess\<close> inserts the row and returns its new id, or 0 with the
  error. \<open>operationRepository.UpdateLogStatus\<close> sets the status of the rows with the id
  and reports whether a row was affected.
\<close>

definition LogAccess :: "AppDB \<Rightarrow> db_error option \<Rightarrow> AccessLog \<Rightarrow> (int \<times> db_error option) \<times> AppDB" where
  "LogAccess db err log =
     (case err of
        Some e \<Rightarrow> ((0, Some (Wrap ''error logging access'' e)), db)
      | None \<Rightarrow>
          ((next_log_id db, None),
           db\<lparr>access_logs := access_logs db @ [log\<lparr>ID := next_log_id db\<rparr>],
              next_log_id := next_log_id db + 1\<rparr>))"

definition UpdateLogStatus ::
    "AppDB \<Rightarrow> db_error option \<Rightarrow> int \<Rightarrow> string \<Rightarrow> (bool \<times> db_error option) \<times> AppDB" where
  "UpdateLogStatus db err logID status =
     (case err of
        Some e \<Rightarrow> ((False, Some (Wrap ''error updating log status'' e)), db)
      | None \<Rightarrow>
          ((\<exists>l \<in> set (access_logs db). ID l = logID, None),
           db\<lparr>access_logs :=
                 map (\<lambda>l. if ID l = logID then l\<lparr>Status := status\<rparr> else l) (access_logs db)\<rparr>))"

section \<open>The report data source\<close>

text \<open>
  \<open>dto.Asisstant230ReportItem\<close>, and the ERP database as far as \<open>GetInventoryReport\<close>
  sees it: whether \<open>USE Leader\<close> and the \<open>SELECT\<close> fail, the rows the \<open>SELECT\<close> yields for
  its two named arguments \<open>@FromDate\<close> and \<open>@ToDate\<close> (each row a list of nullable
  columns), and the error of the row iteration. The statement has no third argument:
  the line that would bind \<open>@DepartmentID\<close> is commented out in the source.
\<close>

record Asisstant230ReportItem =
  DocumentDate :: string
  SalesOrderNumber :: string
  CustomerName :: string
  CurrencyType :: string
  Currency :: string
  DetailedOrderNumber :: string
  InvoiceNumber :: string
  Notes :: string

datatype sql_arg = Named string Time

record ErpDB =
  use_leader_err :: "db_error option"
  query_err :: "db_error option"
  result_set :: "sql_arg list \<Rightarrow> string option list list"
  rows_err :: "db_error option"

text \<open>\<open>rows.Scan\<close> into eight string fields: a NULL column or a wrong column count is an error.\<close>

definition Scan :: "string option list \<Rightarrow> db_error + Asisstant230ReportItem" where
  "Scan columns =
     (case columns of
        [Some c1, Some c2, Some c3, Some c4, Some c5, Some c6, Some c7, Some c8] \<Rightarrow>
          Inr \<lparr>DocumentDate = c1, SalesOrderNumber = c2, CustomerName = c3,
               CurrencyType = c4, Currency = c5, DetailedOrderNumber = c6,
               InvoiceNumber = c7, Notes = c8\<rparr>
      | _ \<Rightarrow> Inl (DbError ''sql: Scan error''))"

fun scanRows ::
    "string option list list \<Rightarrow> Asisstant230ReportItem list
      \<Rightarrow> db_error + Asisstant230ReportItem list" where
  "scanRows [] items = Inr items"
| "scanRows (r # rows) items =
     (case Scan r of
        Inl e \<Rightarrow> Inl (Wrap ''error scanning inventory data'' e)
      | Inr item \<Rightarrow> scanRows rows (items @ [item]))"

definition GetInventoryReport ::
    "ErpDB \<Rightarrow> Time \<Rightarrow> Time \<Rightarrow> int \<Rightarrow> db_error + Asisstant230ReportItem list" where
  "GetInventoryReport erp fromDate toDate departmentID =
     (case use_leader_err erp of
        Some e \<Rightarrow> Inl (Wrap ''error switching database'' e)
      | None \<Rightarrow>
          (case query_err erp of
             Some e \<Rightarrow> Inl (Wrap ''error querying inventory data'' e)
           | None \<Rightarrow>
               (case scanRows
                       (result_set erp [Named ''FromDate'' fromDate, Named ''ToDate'' toDate])
                       [] of
                  Inl e \<Rightarrow> Inl e
                | Inr items \<Rightarrow>
                    (case rows_err erp of
                       Some e \<Rightarrow> Inl (Wrap ''error iterating inventory data'' e)
                     | None \<Rightarrow> Inr items))))"

section \<open>The spreadsheet exporter\<close>

text \<open>
  A workbook is what the library keeps of the calls of \<open>SetCellValue\<close>: the value of each
  cell, by column and row number, both counted from 1. Styles, merged ranges, column
  widths and row heights do not touch a value and are left out. A value is a Go
  \<open>interface{}\<close>: the callers pass strings, and reading a missing key of a row yields
  \<open>nil\<close>, for which the library writes an empty cell. The library cuts a string of more
  than 32767 characters; the model stores every string whole, so it speaks for values
  up to that length.
\<close>

datatype cell_value = Nil | StringValue string

record File =
  sheet :: "nat \<times> nat \<rightharpoonup> cell_value"

definition NewFile :: File where
  "NewFile = \<lparr>sheet = Map.empty\<rparr>"

text \<open>
  The spreadsheet library (excelize) is not part of the repository; how it reads a cell
  reference is written out here from its functions \<open>SplitCellName\<close>,
  \<open>ColumnNameToNumber\<close> and \<open>CellNameToCoordinates\<close>. A reference starts with a letter
  (or \<open>$\<close>); up to its last letter it is the column name, in either case, and what
  follows is the row, a decimal number read by \<open>strconv.Atoi\<close>, from 1 to 1048576.
  A column name is a number in base 26 of at most 16384.
\<close>

datatype excel_error =
    InvalidCellName string | InvalidColumnName string | ErrColumnNumber | ErrMaxRows

definition TotalRows :: int where "TotalRows = 1048576"

definition MaxColumns :: int where "MaxColumns = 16384"

definition alpha :: "char \<Rightarrow> bool" where
  "alpha r = (let n = (of_char r :: int)
              in (65 \<le> n \<and> n \<le> 90) \<or> (97 \<le> n \<and> n \<le> 122) \<or> n = 36)"

fun parseDigits :: "int \<Rightarrow> string \<Rightarrow> int option" where
  "parseDigits acc [] = Some acc"
| "parseDigits acc (c # cs) =
     (let n = (of_char c :: int)
      in if 48 \<le> n \<and> n \<le> 57 then parseDigits (acc * 10 + (n - 48)) cs else None)"

text \<open>\<open>strconv.Atoi\<close>: an optional sign and at least one digit, within 64 bits.\<close>

definition Atoi :: "string \<Rightarrow> int option" where
  "Atoi s =
     (case s of
        [] \<Rightarrow> None
      | c # cs \<Rightarrow>
          let (neg, ds) = (if c = CHR ''-'' then (True, cs)
                           else if c = CHR ''+'' then (False, cs) else (False, s))
          in if ds = [] then None
             else (case parseDigits 0 ds of
                     None \<Rightarrow> None
                   | Some n \<Rightarrow>
                       let v = (if neg then - n else n)
                       in if - 9223372036854775808 \<le> v \<and> v \<le> 9223372036854775807
                          then Some v else None))"

text \<open>\<open>strings.LastIndexFunc\<close>, counting from \<open>i\<close>; \<open>None\<close> is the answer -1.\<close>

fun LastIndexFunc :: "(char \<Rightarrow> bool) \<Rightarrow> nat \<Rightarrow> nat option \<Rightarrow> string \<Rightarrow> nat option" where
  "LastIndexFunc p i found [] = found"
| "LastIndexFunc p i found (c # cs) =
     LastIndexFunc p (i + 1) (if p c then Some i else found) cs"

definition SplitCellName :: "string \<Rightarrow> excel_error + (string \<times> int)" where
  "SplitCellName cell =
     (case cell of
        [] \<Rightarrow> Inl (InvalidCellName cell)
      | c # cs \<Rightarrow>
          if \<not> alpha c then Inl (InvalidCellName cell)
          else
            (case LastIndexFunc alpha 0 None cell of
               None \<Rightarrow> Inl (InvalidCellName cell)
             | Some i \<Rightarrow>
                 if i + 1 < length cell then
                   (let col = filter (\<lambda>x. x \<noteq> CHR ''$'') (take (i + 1) cell);
                        rowStr = drop (i + 1) cell
                    in case Atoi rowStr of
                         None \<Rightarrow> Inl (InvalidCellName cell)
                       | Some row \<Rightarrow>
                           if row > 0 then Inr (col, row) else Inl (InvalidCellName cell))
                 else Inl (InvalidCellName cell)))"

text \<open>
  The loop of \<open>ColumnNameToNumber\<close> runs over the name from its last character. The
  names the exporter builds have one character, far from the overflow of the loop's
  machine integers, which is not modelled.
\<close>

fun columnLoop :: "string \<Rightarrow> int \<Rightarrow> int \<Rightarrow> int option" where
  "columnLoop [] col multi = Some col"
| "columnLoop (r # rest) col multi =
     (let n = (of_char r :: int)
      in if 65 \<le> n \<and> n \<le> 90 then columnLoop rest (col + (n - 65 + 1) * multi) (multi * 26)
         else if 97 \<le> n \<and> n \<le> 122
         then columnLoop rest (col + (n - 97 + 1) * multi) (multi * 26)
         else None)"

definition ColumnNameToNumber :: "string \<Rightarrow> excel_error + nat" where
  "ColumnNameToNumber name =
     (if name = [] then Inl (InvalidColumnName name)
      else (case columnLoop (rev name) 0 1 of
              None \<Rightarrow> Inl (InvalidColumnName name)
            | Some col \<Rightarrow> if col > MaxColumns then Inl ErrColumnNumber else Inr (nat col)))"

definition CellNameToCoordinates :: "string \<Rightarrow> excel_error + (nat \<times> nat)" where
  "CellNameToCoordinates cell =
     (case SplitCellName cell of
        Inl e \<Rightarrow> Inl e
      | Inr (colName, row) \<Rightarrow>
          if row > TotalRows then Inl ErrMaxRows
          else (case ColumnNameToNumber colName of
                  Inl e \<Rightarrow> Inl e
                | Inr col \<Rightarrow> Inr (col, nat row)))"

text \<open>
  \<open>SetCellValue\<close> returns an error for a reference the library cannot read and leaves
  the workbook as it was; otherwise it stores the value. The exporter calls it as a
  statement and drops the error: it goes on with the workbook, \<open>fst\<close> of the result.
\<close>

definition SetCellValue :: "File \<Rightarrow> string \<Rightarrow> cell_value \<Rightarrow> File \<times> excel_error option" where
  "SetCellValue f cell v =
     (case CellNameToCoordinates cell of
        Inl e \<Rightarrow> (f, Some e)
      | Inr pos \<Rightarrow> (f\<lparr>sheet := (sheet f)(pos \<mapsto> v)\<rparr>, None))"

text \<open>
  Reading a cell by its reference: the value written there, \<open>None\<close> for a cell never
  written and for a reference the library cannot read.
\<close>

definition cells :: "File \<Rightarrow> string \<Rightarrow> cell_value option" where
  "cells f cell =
     (case CellNameToCoordinates cell of Inl e \<Rightarrow> None | Inr pos \<Rightarrow> sheet f pos)"

text \<open>
  \<open>fmt.Sprintf("%c", r)\<close>: the UTF-8 encoding of the code point \<open>r\<close>, the replacement
  character for a surrogate or a value beyond U+10FFFF.
\<close>

definition EncodeRune :: "nat \<Rightarrow> string" where
  "EncodeRune r =
     (if r < 0x80 then [char_of r]
      else if r < 0x800 then [char_of (0xC0 + r div 0x40), char_of (0x80 + r mod 0x40)]
      else if (0xD800 \<le> r \<and> r \<le> 0xDFFF) \<or> 0x10FFFF < r then [CHR 0xEF, CHR 0xBF, CHR 0xBD]
      else if r < 0x10000 then
        [char_of (0xE0 + r div 0x1000), char_of (0x80 + (r div 0x40) mod 0x40),
         char_of (0x80 + r mod 0x40)]
      else
        [char_of (0xF0 + r div 0x40000), char_of (0x80 + (r div 0x1000) mod 0x40),
         char_of (0x80 + (r div 0x40) mod 0x40), char_of (0x80 + r mod 0x40)])"

text \<open>The cell reference the exporter computes for column index \<open>j\<close> and a row number.\<close>

definition cellPos :: "nat \<Rightarrow> nat \<Rightarrow> string" where
  "cellPos j row = EncodeRune (65 + j) @ itoa_nat row"

text \<open>
  \<open>translate.TranslateKey\<close>. The map \<open>enToVnTranslate\<close> is not among the sources and is a
  parameter.
\<close>

definition TranslateKey :: "(string \<rightharpoonup> string) \<Rightarrow> string \<Rightarrow> string" where
  "TranslateKey enToVnTranslate key =
     (case enToVnTranslate key of Some translatedValue \<Rightarrow> translatedValue | None \<Rightarrow> key)"

fun writeHeaders :: "(string \<rightharpoonup> string) \<Rightarrow> nat \<Rightarrow> string list \<Rightarrow> File \<Rightarrow> File" where
  "writeHeaders tr i [] f = f"
| "writeHeaders tr i (header # headers) f =
     writeHeaders tr (i + 1) headers
       (fst (SetCellValue f (EncodeRune (65 + i) @ ''3'')
               (StringValue (TranslateKey tr header))))"

text \<open>Reading \<open>item[header]\<close> from a Go map: the zero value \<open>nil\<close> for a missing key.\<close>

definition index_map :: "(string \<rightharpoonup> cell_value) \<Rightarrow> string \<Rightarrow> cell_value" where
  "index_map item header = (case item header of Some v \<Rightarrow> v | None \<Rightarrow> Nil)"

fun writeRow :: "(string \<rightharpoonup> cell_value) \<Rightarrow> nat \<Rightarrow> nat \<Rightarrow> string list \<Rightarrow> File \<Rightarrow> File" where
  "writeRow item row j [] f = f"
| "writeRow item row j (header # headers) f =
     writeRow item row (j + 1) headers
       (fst (SetCellValue f (cellPos j row) (index_map item header)))"

fun writeData :: "nat \<Rightarrow> (string \<rightharpoonup> cell_value) list \<Rightarrow> string list \<Rightarrow> File \<Rightarrow> File" where
  "writeData i [] headers f = f"
| "writeData i (item # data) headers f =
     writeData (i + 1) data headers (writeRow item (i + 4) 0 headers f)"

text \<open>
  \<open>sanitizeFilename\<close>; \<open>filepath.Clean\<close> is the library's and a parameter. Replacing each
  of the nine characters by an underscore, one after the other, is one pass over the name.
\<close>

definition invalidChars :: "char list" where
  "invalidChars = [CHR ''<'', CHR ''>'', CHR '':'', CHR 0x22, CHR ''/'', CHR 0x5C, CHR ''|'',
                   CHR ''?'', CHR ''*'']"

definition sanitizeFilename :: "(string \<Rightarrow> string) \<Rightarrow> string \<Rightarrow> string" where
  "sanitizeFilename filepath_Clean name =
     fold (\<lambda>ch n. map (\<lambda>c. if c = ch then CHR ''_'' else c) n) invalidChars
       (filepath_Clean name)"

definition Format_20060102_150405 :: "Time \<Rightarrow> string" where
  "Format_20060102_150405 t =
     (let (hour, minute, sec) = Clock t
      in appendInt (Year t) 4 @ appendInt (Month t) 2 @ appendInt (Day t) 2 @ ''_''
         @ appendInt hour 2 @ appendInt minute 2 @ appendInt sec 2)"

text \<open>
  What the run of a report entry point depends on besides its arguments and the
  databases: the clock reading, the configured \<open>MaxSearchMonths\<close>, the library calls
  whose code is not in the repository (\<open>json.Marshal\<close>, \<open>filepath.Clean\<close>,
  \<open>filepath.Base\<close>), the translation map, and which steps fail in this run: the
  statements on the access log and the steps of the exporter that return an error.
\<close>

record Env =
  time_Now :: Time
  MaxSearchMonths :: int
  json_Marshal :: "DateRangeRequest \<Rightarrow> string option"
  filepath_Clean :: "string \<Rightarrow> string"
  filepath_Base :: "string \<Rightarrow> string"
  enToVnTranslate :: "string \<rightharpoonup> string"
  log_access_err :: "db_error option"
  update_err :: "db_error option"
  render_fails :: "render_error \<Rightarrow> bool"

definition ExportToExcel ::
    "Env \<Rightarrow> (string \<rightharpoonup> cell_value) list \<Rightarrow> string list \<Rightarrow> string
      \<Rightarrow> render_error + (string \<times> File)" where
  "ExportToExcel env data headers title =
     (let f = fst (SetCellValue NewFile ''A1'' (StringValue title)) in
      if render_fails env TitleStyleError then Inl TitleStyleError
      else if render_fails env HeaderStyleError then Inl HeaderStyleError
      else
        let f = writeHeaders (enToVnTranslate env) 0 headers f in
        if render_fails env DataStyleError then Inl DataStyleError
        else
          let f = writeData 0 data headers f;
              timestamp = Format_20060102_150405 (time_Now env);
              safeTitlePart = sanitizeFilename (filepath_Clean env) title;
              safeTitlePart = (if length safeTitlePart > 30 then take 30 safeTitlePart
                               else safeTitlePart);
              filename = safeTitlePart @ ''_'' @ timestamp @ ''.xlsx''
          in if render_fails env WriteBufferError then Inl WriteBufferError
             else Inr (filename, f))"

section \<open>The report service\<close>

text \<open>
  The state a request runs in: the two databases, and the list of repository and
  exporter calls made so far, in order (the newest last). The list is kept to state in
  which order a run reaches its collaborators; no function reads it.
\<close>

datatype call =
    CallFindByCode string
  | CallCheckUserOperationAccess int int
  | CallLogAccess AccessLog
  | CallUpdateLogStatus int string
  | CallGetInventoryReport Time Time int
  | CallExportToExcel string

record World =
  appDB :: AppDB
  erpDB :: ErpDB
  calls :: "call list"

definition operationRepo_LogAccess ::
    "Env \<Rightarrow> World \<Rightarrow> AccessLog \<Rightarrow> (int \<times> db_error option) \<times> World" where
  "operationRepo_LogAccess env w log =
     (let (r, db) = LogAccess (appDB w) (log_access_err env) log
      in (r, w\<lparr>appDB := db, calls := calls w @ [CallLogAccess log]\<rparr>))"

definition operationRepo_UpdateLogStatus ::
    "Env \<Rightarrow> World \<Rightarrow> int \<Rightarrow> string \<Rightarrow> (bool \<times> db_error option) \<times> World" where
  "operationRepo_UpdateLogStatus env w logID status =
     (let (r, db) = UpdateLogStatus (appDB w) (update_err env) logID status
      in (r, w\<lparr>appDB := db, calls := calls w @ [CallUpdateLogStatus logID status]\<rparr>))"

definition inventoryRepo_GetInventoryReport ::
    "World \<Rightarrow> Time \<Rightarrow> Time \<Rightarrow> int \<Rightarrow> (db_error + Asisstant230ReportItem list) \<times> World" where
  "inventoryRepo_GetInventoryReport w fromDate toDate departmentID =
     (GetInventoryReport (erpDB w) fromDate toDate departmentID,
      w\<lparr>calls := calls w @ [CallGetInventoryReport fromDate toDate departmentID]\<rparr>)"

definition operationRepo_FindByCode ::
    "World \<Rightarrow> db_error option \<Rightarrow> string \<Rightarrow> (db_error + Operation) \<times> World" where
  "operationRepo_FindByCode w err code =
     (FindByCode (appDB w) err code, w\<lparr>calls := calls w @ [CallFindByCode code]\<rparr>)"

definition roleRepo_CheckUserOperationAccess ::
    "World \<Rightarrow> db_error option \<Rightarrow> int \<Rightarrow> int \<Rightarrow> (bool \<times> db_error option) \<times> World" where
  "roleRepo_CheckUserOperationAccess w err userID operationID =
     (CheckUserOperationAccess (appDB w) err userID operationID,
      w\<lparr>calls := calls w @ [CallCheckUserOperationAccess userID operationID]\<rparr>)"

text \<open>
  \<open>operationService.CheckUserAccess\<close>; \<open>err1\<close> and \<open>err2\<close> are the driver errors of its
  two statements.
\<close>

definition CheckUserAccess ::
    "World \<Rightarrow> db_error option \<Rightarrow> db_error option \<Rightarrow> int \<Rightarrow> string
      \<Rightarrow> (bool \<times> db_error option) \<times> World" where
  "CheckUserAccess w err1 err2 userID operationCode =
     (case operationRepo_FindByCode w err1 operationCode of
        (Inl e, w) \<Rightarrow> ((False, Some (Wrap ''error finding operation'' e)), w)
      | (Inr operation, w) \<Rightarrow>
          roleRepo_CheckUserOperationAccess w err2 userID (opID operation))"

text \<open>
  \<open>updateLogStatus\<close> has no result: the error of the repository is logged and dropped.
\<close>

definition updateLogStatus :: "Env \<Rightarrow> World \<Rightarrow> int \<Rightarrow> string \<Rightarrow> World" where
  "updateLogStatus env w logID status =
     (if logID \<le> 0 then w
      else snd (operationRepo_UpdateLogStatus env w logID status))"

text \<open>
  The audit record both entry points build: the resolved window replaces the dates of
  the request before it is serialised, and a failed serialisation is replaced by a fixed
  text. \<open>operationID\<close> is 1 for the view and 2 for the export.
\<close>

definition marshalFailed :: string where
  "marshalFailed =
     ''{'' @ [CHR 0x22] @ ''error'' @ [CHR 0x22] @ '': '' @ [CHR 0x22]
     @ ''failed to marshal search parameters'' @ [CHR 0x22] @ ''}''"

definition newAccessLog :: "Env \<Rightarrow> int \<Rightarrow> int \<Rightarrow> DateRangeRequest \<Rightarrow> Time \<Rightarrow> Time \<Rightarrow> AccessLog" where
  "newAccessLog env userID operationID request resolvedFromDate resolvedToDate =
     (let logRequest = request\<lparr>FromDate := Some resolvedFromDate, ToDate := Some resolvedToDate\<rparr>;
          searchParams = (case json_Marshal env logRequest of
                            Some s \<Rightarrow> s
                          | None \<Rightarrow> marshalFailed)
      in \<lparr>ID = 0, UserID = userID, OperationID = operationID, AccessTime = time_Now env,
          SearchParams = searchParams, IPAddress = [], Status = ''pending''\<rparr>)"

definition GetInventoryReportData ::
    "Env \<Rightarrow> World \<Rightarrow> int \<Rightarrow> int \<Rightarrow> DateRangeRequest
      \<Rightarrow> (error + Asisstant230ReportItem list) \<times> World" where
  "GetInventoryReportData env w userID departmentID request =
     (case resolveDateRange (time_Now env) request of
        Inl err \<Rightarrow> (Inl err, w)
      | Inr (resolvedFromDate, resolvedToDate) \<Rightarrow>
          (case validateDateRange (time_Now env) (MaxSearchMonths env)
                  resolvedFromDate resolvedToDate of
             Some err \<Rightarrow> (Inl err, w)
           | None \<Rightarrow>
               let accessLog = newAccessLog env userID 1 request resolvedFromDate resolvedToDate;
                   ((logID, err), w) = operationRepo_LogAccess env w accessLog;
                   (res, w) = inventoryRepo_GetInventoryReport w resolvedFromDate
                                resolvedToDate departmentID
               in (case res of
                     Inl err \<Rightarrow>
                       (Inl (DataSourceFailure (Wrap ''error querying inventory data'' err)),
                        updateLogStatus env w logID ''error'')
                   | Inr items \<Rightarrow>
                       if length items = 0
                       then (Inr [], updateLogStatus env w logID ''success'')
                       else (Inr items, updateLogStatus env w logID ''success''))))"

record ReportFileResponse =
  fileReportName :: string
  FileName :: string
  FileDetal :: File
  fileGeneratedAt :: Time

definition exportHeaders :: "string list" where
  "exportHeaders =
     [''document_date'', ''sales_order_number'', ''customer_name'', ''currency_type'',
      ''currency'', ''detailed_order_number'', ''invoice_number'', ''notes'']"

definition itemRow :: "Asisstant230ReportItem \<Rightarrow> (string \<rightharpoonup> cell_value)" where
  "itemRow item =
     [''document_date'' \<mapsto> StringValue (DocumentDate item),
      ''sales_order_number'' \<mapsto> StringValue (SalesOrderNumber item),
      ''customer_name'' \<mapsto> StringValue (CustomerName item),
      ''currency_type'' \<mapsto> StringValue (CurrencyType item),
      ''currency'' \<mapsto> StringValue (Currency item),
      ''detailed_order_number'' \<mapsto> StringValue (DetailedOrderNumber item),
      ''invoice_number'' \<mapsto> StringValue (InvoiceNumber item),
      ''notes'' \<mapsto> StringValue (Notes item)]"

definition exportTitle :: "Time \<Rightarrow> Time \<Rightarrow> string" where
  "exportTitle resolvedFromDate resolvedToDate =
     ''Export Sales 230 from '' @ Format_02_01_2006 resolvedFromDate @ '' to ''
     @ Format_02_01_2006 resolvedToDate"

definition ExportInventoryReport ::
    "Env \<Rightarrow> World \<Rightarrow> int \<Rightarrow> int \<Rightarrow> DateRangeRequest
      \<Rightarrow> (error + ReportFileResponse) \<times> World" where
  "ExportInventoryReport env w userID departmentID request =
     (case resolveDateRange (time_Now env) request of
        Inl err \<Rightarrow> (Inl err, w)
      | Inr (resolvedFromDate, resolvedToDate) \<Rightarrow>
          (case validateDateRange (time_Now env) (MaxSearchMonths env)
                  resolvedFromDate resolvedToDate of
             Some err \<Rightarrow> (Inl err, w)
           | None \<Rightarrow>
               let accessLog = newAccessLog env userID 2 request resolvedFromDate resolvedToDate;
                   ((logID, err), w) = operationRepo_LogAccess env w accessLog;
                   (res, w) = inventoryRepo_GetInventoryReport w resolvedFromDate
                                resolvedToDate departmentID
               in (case res of
                     Inl err \<Rightarrow>
                       (Inl (DataSourceFailure
                               (Wrap ''error getting inventory data for export'' err)),
                        updateLogStatus env w logID ''error'')
                   | Inr items \<Rightarrow>
                       if length items = 0
                       then (Inl NoData, updateLogStatus env w logID ''success'')
                       else
                         let title = exportTitle resolvedFromDate resolvedToDate;
                             headers = exportHeaders;
                             data = map itemRow items;
                             w = w\<lparr>calls := calls w @ [CallExportToExcel title]\<rparr>
                         in (case ExportToExcel env data headers title of
                               Inl err \<Rightarrow>
                                 (Inl (RenderFailure err),
                                  updateLogStatus env w logID ''error'')
                             | Inr (filePath, fileDetail) \<Rightarrow>
                                 (Inr \<lparr>fileReportName = title,
                                       FileName = filepath_Base env filePath,
                                       FileDetal = fileDetail,
                                       fileGeneratedAt = time_Now env\<rparr>,
                                  updateLogStatus env w logID ''success'')))))"

section \<open>The report handler\<close>

text \<open>
  The handler of \<open>assistant230_handler.go\<close>, from the parsed request on: the body parser
  and the struct validator run before it. \<open>user_id\<close> and \<open>department_id\<close> are the values the
  token middleware left in the request context. The routes of \<open>SetupRoutes\<close> put the two
  handlers directly behind that middleware.
\<close>

definition formatPeriod :: "string \<Rightarrow> string" where
  "formatPeriod period =
     (if period = ''7days'' then
        ''7 ng'' @ [CHR 0xC3, CHR 0xA0] @ ''y g'' @ [CHR 0xE1, CHR 0xBA, CHR 0xA7] @ ''n nh''
        @ [CHR 0xE1, CHR 0xBA, CHR 0xA5] @ ''t''
      else if period = ''30days'' then
        ''30 ng'' @ [CHR 0xC3, CHR 0xA0] @ ''y g'' @ [CHR 0xE1, CHR 0xBA, CHR 0xA7] @ ''n nh''
        @ [CHR 0xE1, CHR 0xBA, CHR 0xA5] @ ''t''
      else if period = ''3months'' then
        ''3 th'' @ [CHR 0xC3, CHR 0xA1] @ ''ng g'' @ [CHR 0xE1, CHR 0xBA, CHR 0xA7] @ ''n nh''
        @ [CHR 0xE1, CHR 0xBA, CHR 0xA5] @ ''t''
      else if period = ''currentmonth'' then
        ''Th'' @ [CHR 0xC3, CHR 0xA1] @ ''ng hi'' @ [CHR 0xE1, CHR 0xBB, CHR 0x87] @ ''n t''
        @ [CHR 0xE1, CHR 0xBA, CHR 0xA1] @ ''i''
      else if period = ''lastmonth'' then
        ''Th'' @ [CHR 0xC3, CHR 0xA1] @ ''ng tr'' @ [CHR 0xC6, CHR 0xB0, CHR 0xE1, CHR 0xBB, CHR 0x9B]
        @ ''c''
      else period)"

definition reportTitle :: "DateRangeRequest \<Rightarrow> string" where
  "reportTitle request =
     (case Period request of
        Some period \<Rightarrow>
          if period \<noteq> [] then ''Report: '' @ formatPeriod period
          else
            (case (FromDate request, ToDate request) of
               (Some fromD, Some toD) \<Rightarrow>
                 if \<not> IsZero fromD \<and> \<not> IsZero toD
                 then ''Report from '' @ Format_02_01_2006 fromD @ '' to ''
                      @ Format_02_01_2006 toD
                 else ''Report ''
             | _ \<Rightarrow> ''Report '')
      | None \<Rightarrow>
          (case (FromDate request, ToDate request) of
             (Some fromD, Some toD) \<Rightarrow>
               if \<not> IsZero fromD \<and> \<not> IsZero toD
               then ''Report from '' @ Format_02_01_2006 fromD @ '' to ''
                    @ Format_02_01_2006 toD
               else ''Report ''
           | _ \<Rightarrow> ''Report ''))"

record ReportDataResponse =
  ReportName :: string
  GeneratedAt :: Time
  Items :: "Asisstant230ReportItem list"

text \<open>
  A response: \<open>ErrorResponse status message detail\<close> is the JSON error body sent with
  the status, \<open>SuccessResponse\<close> the JSON body of the view, \<open>SendStream\<close> the
  attachment of the export with its file name.
\<close>

datatype detail = OfError error | OfDbError db_error | Text string

datatype response =
    ErrorResponse nat string detail
  | SuccessResponse nat ReportDataResponse
  | SendStream string File

text \<open>
  A nil dereference in the service is a panic: it leaves the handler, the \<open>recover\<close>
  middleware of the application turns it into an error, and the application's
  \<open>errorHandler\<close> answers with status 500 and the message \<open>Internal Server Error\<close>. The
  handlers tell the empty export from other errors by the text of the error; no other
  error of the service has that text.
\<close>

definition recovered :: response where
  "recovered =
     ErrorResponse 500 ''Internal Server Error''
       (Text ''runtime error: invalid memory address or nil pointer dereference'')"

definition ReportHandler_GetInventoryReportData ::
    "Env \<Rightarrow> World \<Rightarrow> int \<Rightarrow> int \<Rightarrow> DateRangeRequest \<Rightarrow> response \<times> World" where
  "ReportHandler_GetInventoryReportData env w userID departmentID request =
     (case GetInventoryReportData env w userID departmentID request of
        (Inl err, w) \<Rightarrow>
          (if err = NilDereference then recovered
           else if err = NoData
           then ErrorResponse 404 ''No Data Found''
                  (Text ''No data available for the selected period.'')
           else ErrorResponse 500 ''Error retrieving report data'' (OfError err),
           w)
      | (Inr items, w) \<Rightarrow>
          (SuccessResponse 200
             \<lparr>ReportName = reportTitle request, GeneratedAt = time_Now env, Items = items\<rparr>,
           w))"

definition ReportHandler_ExportInventoryReport ::
    "Env \<Rightarrow> World \<Rightarrow> int \<Rightarrow> int \<Rightarrow> DateRangeRequest \<Rightarrow> response \<times> World" where
  "ReportHandler_ExportInventoryReport env w userID departmentID request =
     (case ExportInventoryReport env w userID departmentID request of
        (Inl err, w) \<Rightarrow>
          (if err = NilDereference then recovered
           else if err = NoData
           then ErrorResponse 404 ''No Data Found''
                  (Text ''No data found for the specified date range to export.'')
           else ErrorResponse 500 ''Error exporting report'' (OfError err),
           w)
      | (Inr reportFileResponse, w) \<Rightarrow>
          (SendStream (FileName reportFileResponse) (FileDetal reportFileResponse), w))"

text \<open>
  \<open>middleware.RoleCheckMiddleware\<close> guards a handler \<open>next\<close> by an operation code. No
  route of the repository installs it.
\<close>

definition RoleCheckMiddleware ::
    "db_error option \<Rightarrow> db_error option \<Rightarrow> string \<Rightarrow> (World \<Rightarrow> response \<times> World)
      \<Rightarrow> World \<Rightarrow> int \<Rightarrow> response \<times> World" where
  "RoleCheckMiddleware err1 err2 operationCode next w userID =
     (if userID = 0
      then (ErrorResponse 401 ''Authentication required'' (Text ''User not authenticated''), w)
      else
        (case CheckUserAccess w err1 err2 userID operationCode of
           ((hasAccess, Some e), w) \<Rightarrow>
             (ErrorResponse 500 ''Error checking permissions'' (OfDbError e), w)
         | ((hasAccess, None), w) \<Rightarrow>
             if \<not> hasAccess
             then (ErrorResponse 403 ''Permission denied''
                     (Text (''You don'' @ [CHR 0x27]
                            @ ''t have permission to perform this operation'')), w)
             else next w))"

section \<open>Observations and example inputs\<close>

text \<open>
  The statements below read a run through these: the calls a run added, the statuses of
  the log rows with a given id, whether a call is a permission query or a status write,
  and the window as both entry points obtain it (resolved, then validated).
\<close>

definition new_calls :: "World \<Rightarrow> World \<Rightarrow> call list" where
  "new_calls w w' = drop (length (calls w)) (calls w')"

definition audit_status :: "World \<Rightarrow> int \<Rightarrow> string list" where
  "audit_status w logID = map Status (filter (\<lambda>l. ID l = logID) (access_logs (appDB w)))"

fun isPermissionQuery :: "call \<Rightarrow> bool" where
  "isPermissionQuery (CallFindByCode code) = True"
| "isPermissionQuery (CallCheckUserOperationAccess userID operationID) = True"
| "isPermissionQuery c = False"


fun isRender :: "call \<Rightarrow> bool" where
  "isRender (CallExportToExcel title) = True"
| "isRender c = False"

text \<open>
  The calendar as a reader states it: the number of days of a month, the month before a
  month, and an instant given by its date and time of day in UTC.
\<close>

definition daysIn :: "int \<Rightarrow> int \<Rightarrow> int" where
  "daysIn year month =
     daysBefore month - daysBefore (month - 1) + (if month = 2 \<and> isLeap year then 1 else 0)"

definition monthsBefore :: "int \<Rightarrow> int \<times> int \<Rightarrow> int \<times> int" where
  "monthsBefore n ym =
     (let (year, month) = ym; k = year * 12 + (month - 1) - n in (k div 12, k mod 12 + 1))"

text \<open>What the wall clock of an instant reads: its date, its time of day, its nanosecond.\<close>

definition reads :: "Time \<Rightarrow> int \<times> int \<times> int \<Rightarrow> int \<times> int \<times> int \<Rightarrow> int \<Rightarrow> bool" where
  "reads t date clock nsec \<longleftrightarrow> Date_of t = date \<and> Clock t = clock \<and> Nanosecond_of t = nsec"

text \<open>
  The end of the current day as the code computes it, in the resolver (\<open>currentEndOfDay\<close>)
  and in the validator (\<open>nowEndOfDay\<close>): the last nanosecond of the day of \<open>Truncate\<close>,
  which is a day of UTC.
\<close>

definition currentEndOfDay :: "Time \<Rightarrow> Time" where
  "currentEndOfDay now = Add (Truncate now (24 * Hour)) (24 * Hour - Nanosecond)"

text \<open>
  The end of the current day as the specification words it: all arithmetic in the
  caller's local civil calendar, the current end of day being the start of the current
  civil day plus 24 hours minus one time unit. The start of the civil day is midnight
  of the date the wall clock reads, in the location of the clock.
\<close>

definition spec_startOfDay :: "Time \<Rightarrow> Time" where
  "spec_startOfDay now = (let (year, month, day) = Date_of now
                          in Date year month day 0 0 0 0 (loc now))"

definition spec_endOfDay :: "Time \<Rightarrow> Time" where
  "spec_endOfDay now = Add (spec_startOfDay now) (24 * Hour - Nanosecond)"

text \<open>The HTTP status of a response (a stream is sent with 200).\<close>

fun statusOf :: "response \<Rightarrow> nat" where
  "statusOf (ErrorResponse status message d) = status"
| "statusOf (SuccessResponse status body) = status"
| "statusOf (SendStream fileName buffer) = 200"

definition window :: "Env \<Rightarrow> DateRangeRequest \<Rightarrow> error + (Time \<times> Time)" where
  "window env request =
     (case resolveDateRange (time_Now env) request of
        Inl err \<Rightarrow> Inl err
      | Inr (fromDate, toDate) \<Rightarrow>
          (case validateDateRange (time_Now env) (MaxSearchMonths env) fromDate toDate of
             Some err \<Rightarrow> Inl err
           | None \<Rightarrow> Inr (fromDate, toDate)))"

text \<open>
  A user has a qualifying grant for an operation id when one of the user's roles has a
  grant to it whose flag is true.
\<close>

definition qualifies :: "int \<Rightarrow> int \<Rightarrow> UserRole \<Rightarrow> RoleOperation \<Rightarrow> bool" where
  "qualifies userID operationID ur ro =
     (ur_user_id ur = userID \<and> RoleID ro = ur_role_id ur
      \<and> roOperationID ro = operationID \<and> CanAccess ro)"

definition hasGrant :: "AppDB \<Rightarrow> int \<Rightarrow> int \<Rightarrow> bool" where
  "hasGrant db userID operationID =
     (\<exists>ur \<in> set (user_roles db). \<exists>ro \<in> set (role_operations db).
        qualifies userID operationID ur ro)"

text \<open>
  How a reader addresses the cell of column index \<open>j\<close> (from 0): the spreadsheet's
  column letters A to Z, then AA, AB and so on, followed by the row number.
\<close>

fun columnName :: "nat \<Rightarrow> string" where
  "columnName j =
     (if j < 26 then [char_of (65 + j)]
      else columnName (j div 26 - 1) @ [char_of (65 + j mod 26)])"

declare columnName.simps [simp del]

definition readCell :: "File \<Rightarrow> nat \<Rightarrow> nat \<Rightarrow> cell_value option" where
  "readCell f j row = cells f (columnName j @ itoa_nat row)"

text \<open>Whether \<open>s\<close> occurs in \<open>t\<close> as a contiguous part.\<close>

fun embeds :: "string \<Rightarrow> string \<Rightarrow> bool" where
  "embeds [] s = (s = [])"
| "embeds (c # t) s = (take (length s) (c # t) = s \<or> embeds t s)"

text \<open>
  Example inputs: a server clock at noon UTC on 2024-03-15 with six months of lookback,
  a database in which user 1 holds role 10, which is granted operation 1 (the view) and
  no other, and user 7 holds no role, and an ERP answer of one row.
\<close>

definition exampleEnv :: Env where
  "exampleEnv =
     \<lparr>time_Now = Date 2024 3 15 12 0 0 0 0, MaxSearchMonths = 6,
      json_Marshal = (\<lambda>request. None), filepath_Clean = (\<lambda>p. p), filepath_Base = (\<lambda>p. p),
      enToVnTranslate = [''notes'' \<mapsto> ''Ghi chu''],
      log_access_err = None, update_err = None, render_fails = (\<lambda>step. False)\<rparr>"

definition exampleRow :: "string option list" where
  "exampleRow =
     [Some ''14/03/2024'', Some ''230-0001'', Some ''ACME'', Some ''1,000'', Some ''1,000'',
      Some '''', Some '''', Some '''']"

definition exampleAppDB :: AppDB where
  "exampleAppDB =
     \<lparr>operations =
        [\<lparr>opID = 1, opName = ''View inventory report'', opCode = ''inventory_view'',
          opDescription = []\<rparr>,
         \<lparr>opID = 2, opName = ''Export inventory report'', opCode = ''inventory_export'',
          opDescription = []\<rparr>],
      user_roles = [\<lparr>ur_user_id = 1, ur_role_id = 10\<rparr>],
      role_operations =
        [\<lparr>RoleID = 10, roOperationID = 1, CanAccess = True, CreatedAt = zeroTime\<rparr>],
      access_logs = [], next_log_id = 1\<rparr>"

definition exampleWorld :: "string option list list \<Rightarrow> World" where
  "exampleWorld rows =
     \<lparr>appDB = exampleAppDB,
      erpDB = \<lparr>use_leader_err = None, query_err = None, result_set = (\<lambda>args. rows),
               rows_err = None\<rparr>,
      calls = []\<rparr>"

definition periodRequest :: "string \<Rightarrow> DateRangeRequest" where
  "periodRequest period = \<lparr>FromDate = None, ToDate = None, Period = Some period\<rparr>"

definition explicitRequest :: "Time \<Rightarrow> Time \<Rightarrow> DateRangeRequest" where
  "explicitRequest fromD toD = \<lparr>FromDate = Some fromD, ToDate = Some toD, Period = None\<rparr>"

section \<open>The resolver on explicit dates\<close>

lemma resolveDateRange_explicit_pair:
  assumes "Period request = None \<or> Period request = Some []"
    and "FromDate request = Some fromD" and "ToDate request = Some toD"
  shows "resolveDateRange now request =
           (if IsZero fromD \<or> IsZero toD then Inl MissingDateRange
            else if Year fromD < 1900 \<or> Year toD < 1900 then Inl InvalidDate
            else Inr (Truncate fromD (24 * Hour),
                      Add (Truncate toD (24 * Hour)) (24 * Hour - Nanosecond)))"
  using assms by (auto simp: resolveDateRange_def resolveExplicit_def)

text \<open>
  Claim C5. Without a period, a request whose two dates are present and non-zero resolves
  to the truncated pair, a year before 1900 gives \<open>InvalidDate\<close>, and every request
  without a complete pair, also one whose date pointers are absent, is to fail with
  \<open>MissingDateRange\<close>. The code does not do the last: a request without a period whose
  \<open>FromDate\<close> is absent, or whose \<open>FromDate\<close> is set and non-zero and whose \<open>ToDate\<close> is
  absent, calls \<open>IsZero\<close> through a nil pointer and panics instead of returning
  \<open>MissingDateRange\<close>.
\<close>

theorem resolveDateRange_absent_date_panics:
  "resolveDateRange now \<lparr>FromDate = None, ToDate = t, Period = None\<rparr> = Inl NilDereference
   \<and> resolveDateRange now \<lparr>FromDate = None, ToDate = t, Period = Some []\<rparr>
       = Inl NilDereference
   \<and> resolveDateRange now
         \<lparr>FromDate = Some (Date 2024 3 1 0 0 0 0 0), ToDate = None, Period = None\<rparr>
       = Inl NilDereference
   \<and> resolveDateRange now \<lparr>FromDate = None, ToDate = t, Period = None\<rparr>
       \<noteq> Inl MissingDateRange"
  by (simp add: resolveDateRange_def resolveExplicit_def IsZero_def Date_def
      daysFromCivil_def daysSinceEpoch_def daysBefore_def isLeap_def Second_def
      Nanosecond_def)

section \<open>The resolver on period symbols\<close>

lemma resolveDateRange_unknown_period:
  assumes "period \<noteq> []"
    and "period \<notin> {''7days'', ''30days'', ''3months'', ''currentmonth'', ''lastmonth''}"
  shows "resolveDateRange now \<lparr>FromDate = fromD, ToDate = toD, Period = Some period\<rparr>
           = Inl (InvalidPeriod period)"
  using assms by (simp add: resolveDateRange_def resolvePeriod_def Let_def)

text \<open>
  Claim C3. Each period symbol is to resolve to the window of the table, in the civil
  calendar of the caller: for \<open>currentmonth\<close> on 2024-03-15, from 2024-03-01T00:00:00 to
  2024-03-15T23:59:59.999999999. The code takes the end of the current day and the start
  of a day from \<open>Truncate\<close>, which cuts at midnight UTC, and the first of a month from
  \<open>time.Date\<close> in the location of the clock. With the clock at 03:00 on 2024-03-15 in
  a location seven hours east of UTC, \<open>currentmonth\<close> ends at 06:59:59.999999999 of that
  day, \<open>7days\<close> and \<open>30days\<close> start at 07:00 one day early, and \<open>3months\<close> starts at
  07:00 on 2023-12-31 instead of 2024-01-01.
\<close>

theorem resolveDateRange_east_of_utc:
  "Date_of (Date 2024 3 15 3 0 0 0 (7 * 3600)) = (2024, 3, 15)
   \<and> Clock (Date 2024 3 15 3 0 0 0 (7 * 3600)) = (3, 0, 0)
   \<and> (case resolveDateRange (Date 2024 3 15 3 0 0 0 (7 * 3600)) (periodRequest ''currentmonth'') of
        Inl e \<Rightarrow> False
      | Inr (f, t) \<Rightarrow>
          Date_of f = (2024, 3, 1) \<and> Clock f = (0, 0, 0)
          \<and> Date_of t = (2024, 3, 15) \<and> Clock t = (6, 59, 59) \<and> Nanosecond_of t = 999999999)
   \<and> (case resolveDateRange (Date 2024 3 15 3 0 0 0 (7 * 3600)) (periodRequest ''7days'') of
        Inl e \<Rightarrow> False
      | Inr (f, t) \<Rightarrow>
          Date_of f = (2024, 3, 8) \<and> Clock f = (7, 0, 0)
          \<and> Date_of t = (2024, 3, 15) \<and> Clock t = (6, 59, 59))
   \<and> (case resolveDateRange (Date 2024 3 15 3 0 0 0 (7 * 3600)) (periodRequest ''30days'') of
        Inl e \<Rightarrow> False
      | Inr (f, t) \<Rightarrow>
          Date_of f = (2024, 2, 14) \<and> Clock f = (7, 0, 0)
          \<and> Date_of t = (2024, 3, 15) \<and> Clock t = (6, 59, 59))
   \<and> (case resolveDateRange (Date 2024 3 15 3 0 0 0 (7 * 3600)) (periodRequest ''3months'') of
        Inl e \<Rightarrow> False
      | Inr (f, t) \<Rightarrow>
          Date_of f = (2023, 12, 31) \<and> Clock f = (7, 0, 0)
          \<and> Date_of t = (2024, 3, 15) \<and> Clock t = (6, 59, 59))"
  by code_simp

section \<open>The calendar\<close>

lemma div_eqI: "(0::int) < n \<Longrightarrow> n * q \<le> x \<Longrightarrow> x < n * q + n \<Longrightarrow> x div n = q"
  by (rule int_div_pos_eq [of x n q "x - n * q"]) auto

lemma mod_zero_range: "(0::int) < x \<Longrightarrow> x \<le> n \<Longrightarrow> x mod n = 0 \<longleftrightarrow> x = n"
  by (cases "x = n") auto

text \<open>
  A year is \<open>400 a + 100 b + 4 c + e + 1\<close> with \<open>b < 4\<close>, \<open>c < 25\<close> and \<open>e < 4\<close>; it is a
  leap year when it ends its group of four and does not end a century, or ends its
  group of four hundred.
\<close>

lemma year_decomp:
  fixes a b c e :: int
  assumes b: "0 \<le> b" "b < 4" and c: "0 \<le> c" "c < 25" and e: "0 \<le> e" "e < 4"
  shows "daysSinceEpoch (400 * a + 100 * b + 4 * c + e + 1)
           = 146097 * a + 36524 * b + 1461 * c + 365 * e"
    and "isLeap (400 * a + 100 * b + 4 * c + e + 1) \<longleftrightarrow> e = 3 \<and> (c \<noteq> 24 \<or> b = 3)"
proof -
  let ?y = "400 * a + 100 * b + 4 * c + e + 1"
  let ?y' = "400 * a + 100 * b + 4 * c + e"
  have d4: "?y' div 4 = 100 * a + 25 * b + c"
    using e by (intro div_eqI) auto
  have d100: "?y' div 100 = 4 * a + b"
    using c e by (intro div_eqI) auto
  have d400: "?y' div 400 = a"
    using b c e by (intro div_eqI) auto
  show "daysSinceEpoch ?y = 146097 * a + 36524 * b + 1461 * c + 365 * e"
    unfolding daysSinceEpoch_def Let_def
    using d4 d100 d400 by simp
  have "?y = (e + 1) + 4 * (100 * a + 25 * b + c)" by simp
  then have "?y mod 4 = (e + 1) mod 4" by (metis mod_mult_self2)
  then have m4: "?y mod 4 = 0 \<longleftrightarrow> e = 3"
    using e mod_zero_range [of "e + 1" 4] by auto
  have "?y = (4 * c + e + 1) + 100 * (4 * a + b)" by simp
  then have "?y mod 100 = (4 * c + e + 1) mod 100" by (metis mod_mult_self2)
  then have m100: "?y mod 100 = 0 \<longleftrightarrow> e = 3 \<and> c = 24"
    using e c mod_zero_range [of "4 * c + e + 1" 100] by auto
  have "?y = (100 * b + 4 * c + e + 1) + 400 * a" by simp
  then have "?y mod 400 = (100 * b + 4 * c + e + 1) mod 400" by (metis mod_mult_self2)
  then have m400: "?y mod 400 = 0 \<longleftrightarrow> e = 3 \<and> c = 24 \<and> b = 3"
    using e c b mod_zero_range [of "100 * b + 4 * c + e + 1" 400] by auto
  show "isLeap ?y \<longleftrightarrow> e = 3 \<and> (c \<noteq> 24 \<or> b = 3)"
    unfolding isLeap_def m4 m100 m400 by auto
qed

lemma absYear_aux:
  fixes a b c e k :: int
  assumes b: "0 \<le> b" "b < 4" and c: "0 \<le> c" "c < 25" and e: "0 \<le> e" "e < 4"
    and k: "0 \<le> k" "k < 365 + (if e = 3 \<and> (c \<noteq> 24 \<or> b = 3) then 1 else 0)"
  shows "absYear (146097 * a + 36524 * b + 1461 * c + 365 * e + k)
           = (400 * a + 100 * b + 4 * c + e + 1, k)"
proof -
  have k365: "k \<le> 365" using k(2) by (simp split: if_splits)
  have kleap: "k = 365 \<Longrightarrow> e = 3 \<and> (c \<noteq> 24 \<or> b = 3)" using k(2) by (simp split: if_splits)
  let ?d = "146097 * a + 36524 * b + 1461 * c + 365 * e + k"
  let ?d1 = "36524 * b + 1461 * c + 365 * e + k"
  let ?d2 = "1461 * c + 365 * e + k"
  let ?d3 = "365 * e + k"
  have d3_bound: "?d3 \<le> 1460" using e k365 kleap by (cases "k = 365") auto
  have d2_bound: "?d2 \<le> 36524 \<and> (b \<noteq> 3 \<longrightarrow> ?d2 < 36524)"
    using c e k(1) k365 kleap by (cases "k = 365") auto
  have n400: "?d div 146097 = a"
    using b c e k(1) d2_bound by (intro div_eqI) auto
  have d1: "?d - 146097 * a = ?d1" by simp
  have n100: "?d1 div 36524 - (?d1 div 36524) div 4 = b"
  proof (cases "?d2 = 36524")
    case True
    then have b3: "b = 3" using d2_bound by auto
    have "?d1 = 36524 * 4" using True b3 by simp
    then show ?thesis using b3 by simp
  next
    case False
    then have "?d1 div 36524 = b"
      using c e k(1) d2_bound by (intro div_eqI) auto
    then show ?thesis using b by simp
  qed
  have d2: "?d1 - 36524 * b = ?d2" by simp
  have n4: "?d2 div 1461 = c"
    using e k(1) d3_bound by (intro div_eqI) auto
  have d3: "?d2 - 1461 * c = ?d3" by simp
  have n1: "?d3 div 365 - (?d3 div 365) div 4 = e"
  proof (cases "k = 365")
    case True
    then have "?d3 = 365 * 4" using kleap by simp
    then show ?thesis using kleap True by simp
  next
    case False
    then have "?d3 div 365 = e"
      using k(1) k365 by (intro div_eqI) auto
    then show ?thesis using e by simp
  qed
  show ?thesis
    unfolding absYear_def Let_def n400 d1 n100 d2 n4 d3 n1 by simp
qed

lemma year_split:
  obtains a b c e :: int where "0 \<le> b" "b < 4" "0 \<le> c" "c < 25" "0 \<le> e" "e < 4"
    "y = 400 * a + 100 * b + 4 * c + e + 1"
proof -
  define y' where "y' = y - 1"
  define r where "r = y' mod 400"
  define s where "s = r mod 100"
  have r: "0 \<le> r" "r < 400" by (simp_all add: r_def)
  have s: "0 \<le> s" "s < 100" by (simp_all add: s_def)
  have "0 \<le> r div 100" "r div 100 < 4" using r by auto
  moreover have "0 \<le> s div 4" "s div 4 < 25" using s by auto
  moreover have "0 \<le> s mod 4" "s mod 4 < 4" by simp_all
  moreover have "y = 400 * (y' div 400) + 100 * (r div 100) + 4 * (s div 4) + s mod 4 + 1"
  proof -
    have "y' = 400 * (y' div 400) + r" by (simp add: r_def)
    moreover have "r = 100 * (r div 100) + s" by (simp add: s_def)
    moreover have "s = 4 * (s div 4) + s mod 4" by simp
    ultimately show ?thesis using y'_def by linarith
  qed
  ultimately show ?thesis by (rule that)
qed

lemma absYear_daysSinceEpoch:
  assumes "0 \<le> k" "k < (if isLeap y then 366 else 365)"
  shows "absYear (daysSinceEpoch y + k) = (y, k)"
proof -
  obtain a b c e :: int where bounds: "0 \<le> b" "b < 4" "0 \<le> c" "c < 25" "0 \<le> e" "e < 4"
    and y: "y = 400 * a + 100 * b + 4 * c + e + 1"
    by (rule year_split)
  have dse: "daysSinceEpoch y = 146097 * a + 36524 * b + 1461 * c + 365 * e"
    and leap: "isLeap y \<longleftrightarrow> e = 3 \<and> (c \<noteq> 24 \<or> b = 3)"
    unfolding y by (rule year_decomp [OF bounds])+
  have "k < 365 + (if e = 3 \<and> (c \<noteq> 24 \<or> b = 3) then 1 else 0)"
    using assms(2) leap by (auto split: if_splits)
  from absYear_aux [OF bounds assms(1) this, of a] show ?thesis
    using dse y by simp
qed

lemma daysSinceEpoch_Suc:
  "daysSinceEpoch (y + 1) = daysSinceEpoch y + (if isLeap y then 366 else 365)"
proof -
  obtain a b c e :: int where bounds: "0 \<le> b" "b < 4" "0 \<le> c" "c < 25" "0 \<le> e" "e < 4"
    and y: "y = 400 * a + 100 * b + 4 * c + e + 1"
    by (rule year_split)
  have dse: "daysSinceEpoch y = 146097 * a + 36524 * b + 1461 * c + 365 * e"
    and leap: "isLeap y \<longleftrightarrow> e = 3 \<and> (c \<noteq> 24 \<or> b = 3)"
    unfolding y by (rule year_decomp [OF bounds])+
  let ?y' = "400 * a + 100 * b + 4 * c + e + 1"
  have d4: "?y' div 4 = 100 * a + 25 * b + c + (if e = 3 then 1 else 0)"
    using bounds by (intro div_eqI) auto
  have d100: "?y' div 100 = 4 * a + b + (if e = 3 \<and> c = 24 then 1 else 0)"
    using bounds by (intro div_eqI) auto
  have d400: "?y' div 400 = a + (if e = 3 \<and> c = 24 \<and> b = 3 then 1 else 0)"
    using bounds by (intro div_eqI) auto
  have "y + 1 - 1 = ?y'" using y by simp
  then have "daysSinceEpoch (y + 1) = 365 * ?y' + ?y' div 4 - ?y' div 100 + ?y' div 400"
    unfolding daysSinceEpoch_def Let_def by (simp only:)
  then show ?thesis
    unfolding d4 d100 d400 dse leap by auto
qed

text \<open>Every day number lies in exactly one year.\<close>

lemma absYear_forward:
  assumes "absYear z = (y, k)"
  shows "z = daysSinceEpoch y + k \<and> 0 \<le> k \<and> k < (if isLeap y then 366 else 365)"
proof -
  define a where "a = z div 146097"
  define d1 where "d1 = z mod 146097"
  define b where "b = (if d1 = 146096 then 3 else d1 div 36524)"
  define d2 where "d2 = d1 - 36524 * b"
  define c where "c = d2 div 1461"
  define d3 where "d3 = d2 mod 1461"
  define e where "e = (if d3 = 1460 then 3 else d3 div 365)"
  define k' where "k' = d3 - 365 * e"
  have d1: "0 \<le> d1" "d1 < 146097" by (simp_all add: d1_def)
  have b: "0 \<le> b" "b < 4" using d1 by (auto simp: b_def)
  have d2c: "0 \<le> d2 \<and> d2 \<le> 36524 \<and> (d2 = 36524 \<longrightarrow> b = 3)"
  proof (cases "d1 = 146096")
    case True
    then show ?thesis by (simp add: d2_def b_def)
  next
    case False
    then have "d2 = d1 mod 36524"
      by (simp add: d2_def b_def minus_mult_div_eq_mod)
    moreover have "0 \<le> d1 mod 36524" "d1 mod 36524 < 36524" by simp_all
    ultimately show ?thesis by linarith
  qed
  then have d2: "0 \<le> d2" "d2 \<le> 36524" "d2 = 36524 \<longrightarrow> b = 3" by simp_all
  have c: "0 \<le> c" "c < 25" using d2 by (auto simp: c_def)
  have d3: "0 \<le> d3" "d3 < 1461" by (simp_all add: d3_def)
  have d2_eq: "d2 = 1461 * c + d3" by (simp add: c_def d3_def)
  have e: "0 \<le> e" "e < 4" using d3 by (auto simp: e_def)
  have k'c: "0 \<le> k' \<and> k' \<le> 365 \<and> (k' = 365 \<longrightarrow> e = 3 \<and> d3 = 1460)"
  proof (cases "d3 = 1460")
    case True
    then show ?thesis by (simp add: k'_def e_def)
  next
    case False
    then have "k' = d3 mod 365"
      by (simp add: k'_def e_def minus_mult_div_eq_mod)
    moreover have "0 \<le> d3 mod 365" "d3 mod 365 < 365" by simp_all
    ultimately show ?thesis by linarith
  qed
  then have k': "0 \<le> k'" "k' \<le> 365" "k' = 365 \<longrightarrow> e = 3 \<and> d3 = 1460" by simp_all
  have leapday: "k' = 365 \<longrightarrow> c \<noteq> 24 \<or> b = 3"
    using k'(3) d2(2,3) d2_eq by auto
  have kb: "k' < 365 + (if e = 3 \<and> (c \<noteq> 24 \<or> b = 3) then 1 else 0)"
    using k' leapday by auto
  have z: "z = 146097 * a + 36524 * b + 1461 * c + 365 * e + k'"
  proof -
    have "z = 146097 * a + d1" by (simp add: a_def d1_def)
    moreover have "d1 = 36524 * b + d2" by (simp add: d2_def)
    moreover have "d3 = 365 * e + k'" by (simp add: k'_def)
    ultimately show ?thesis using d2_eq by linarith
  qed
  let ?y = "400 * a + 100 * b + 4 * c + e + 1"
  have "absYear z = (?y, k')"
    unfolding z by (rule absYear_aux [OF b c e k'(1) kb])
  with assms have y: "y = ?y" and k: "k = k'" by simp_all
  have dse: "daysSinceEpoch y = 146097 * a + 36524 * b + 1461 * c + 365 * e"
    and leap: "isLeap y \<longleftrightarrow> e = 3 \<and> (c \<noteq> 24 \<or> b = 3)"
    unfolding y by (rule year_decomp [OF b c e])+
  show ?thesis using z dse leap k k'(1) kb by auto
qed

text \<open>Month and day of every day of a year, by evaluating all of them.\<close>

lemma monthDay_table:
  "list_all (\<lambda>yday. list_all (\<lambda>leap.
       (yday < (if leap then 366 else 365) \<longrightarrow>
        (case monthDay leap yday of (m, d) \<Rightarrow>
           1 \<le> m \<and> m \<le> 12 \<and> 1 \<le> d
           \<and> d \<le> daysBefore m - daysBefore (m - 1) + (if m = 2 \<and> leap then 1 else 0)
           \<and> yday = daysBefore (m - 1) + (if leap \<and> 3 \<le> m then 1 else 0) + d - 1)))
     [True, False]) [0..365]"
  by code_simp

lemma monthDay_inverse_table:
  "list_all (\<lambda>m. list_all (\<lambda>d. list_all (\<lambda>leap.
       (d \<le> daysBefore m - daysBefore (m - 1) + (if m = 2 \<and> leap then 1 else 0) \<longrightarrow>
        monthDay leap (daysBefore (m - 1) + (if leap \<and> 3 \<le> m then 1 else 0) + d - 1) = (m, d)))
     [True, False]) [1..31]) [1..12]"
  by code_simp

lemma monthDay_forward:
  assumes "0 \<le> yday" "yday < (if leap then 366 else 365)" "monthDay leap yday = (m, d)"
  shows "1 \<le> m \<and> m \<le> 12 \<and> 1 \<le> d
         \<and> d \<le> daysBefore m - daysBefore (m - 1) + (if m = 2 \<and> leap then 1 else 0)
         \<and> yday = daysBefore (m - 1) + (if leap \<and> 3 \<le> m then 1 else 0) + d - 1"
proof -
  have "yday \<in> set [0..365]" using assms(1,2) by (auto split: if_splits)
  moreover have "leap \<in> set [True, False]" by auto
  ultimately show ?thesis
    using monthDay_table assms(2,3) unfolding list_all_iff by fastforce
qed

lemma daysBefore_step: "1 \<le> m \<Longrightarrow> m \<le> 12 \<Longrightarrow> daysBefore m - daysBefore (m - 1) \<le> 31"
  by (auto simp: daysBefore_def)

lemma monthDay_inverse:
  assumes "1 \<le> m" "m \<le> 12" "1 \<le> d"
    "d \<le> daysBefore m - daysBefore (m - 1) + (if m = 2 \<and> leap then 1 else 0)"
  shows "monthDay leap (daysBefore (m - 1) + (if leap \<and> 3 \<le> m then 1 else 0) + d - 1) = (m, d)"
proof -
  have "d \<le> 31" using assms(1,2,4) by (auto simp: daysBefore_def split: if_splits)
  then have "d \<in> set [1..31]" using assms(3) by simp
  moreover have "m \<in> set [1..12]" using assms(1,2) by simp
  moreover have "leap \<in> set [True, False]" by auto
  ultimately show ?thesis
    using monthDay_inverse_table assms(4) unfolding list_all_iff by fastforce
qed

text \<open>Day numbers and dates determine each other.\<close>

lemma absDate_forward:
  assumes "absDate z = (y, m, d)"
  shows "1 \<le> m \<and> m \<le> 12 \<and> 1 \<le> d \<and> d \<le> daysIn y m \<and> z = daysFromCivil y m d"
proof -
  obtain y' k where Y: "absYear z = (y', k)" by (cases "absYear z")
  obtain m' d' where M: "monthDay (isLeap y') k = (m', d')" by (cases "monthDay (isLeap y') k")
  from assms Y M have eq: "y = y'" "m = m'" "d = d'" by (simp_all add: absDate_def)
  from absYear_forward [OF Y]
  have z: "z = daysSinceEpoch y' + k" and k: "0 \<le> k" "k < (if isLeap y' then 366 else 365)"
    by simp_all
  from monthDay_forward [OF k M] z show ?thesis
    unfolding eq daysIn_def daysFromCivil_def by auto
qed

lemma absDate_daysFromCivil:
  assumes "1 \<le> m" "m \<le> 12" "1 \<le> d" "d \<le> daysIn y m"
  shows "absDate (daysFromCivil y m d) = (y, m, d)"
proof -
  let ?k = "daysBefore (m - 1) + (if isLeap y \<and> 3 \<le> m then 1 else 0) + d - 1"
  have d: "d \<le> daysBefore m - daysBefore (m - 1) + (if m = 2 \<and> isLeap y then 1 else 0)"
    using assms(4) by (simp add: daysIn_def)
  have k: "0 \<le> ?k" "?k < (if isLeap y then 366 else 365)"
    using assms(1,2,3) d by (auto simp: daysBefore_def split: if_splits)
  have "daysFromCivil y m d = daysSinceEpoch y + ?k"
    by (simp add: daysFromCivil_def)
  then have "absYear (daysFromCivil y m d) = (y, ?k)"
    using absYear_daysSinceEpoch [OF k] by simp
  moreover have "monthDay (isLeap y) ?k = (m, d)"
    by (rule monthDay_inverse [OF assms(1,2,3) d])
  ultimately show ?thesis by (simp add: absDate_def)
qed

section \<open>The period table in UTC\<close>

lemma day_ns: "24 * Hour = 86400000000000"
  by (simp add: Hour_def Second_def Nanosecond_def)

lemma instant_parts:
  assumes "0 \<le> r" "r < 86400000000000"
  shows "reads \<lparr>nanos = n * 86400000000000 + r, loc = 0\<rparr> (absDate n)
           (r div 1000000000 div 3600, r div 1000000000 mod 3600 div 60,
            r div 1000000000 mod 60)
           (r mod 1000000000)"
proof -
  let ?x = "n * 86400000000000 + r"
  have dv: "?x div 86400000000000 = n"
    using assms by (intro div_eqI) auto
  have "?x mod 86400000000000 = r mod 86400000000000"
    by (metis mod_mult_self3)
  then have md: "?x mod 86400000000000 = r" using assms by simp
  have "?x = r + 1000000000 * (n * 86400)" by simp
  then have ns: "?x mod 1000000000 = r mod 1000000000"
    by (metis mod_mult_self2)
  show ?thesis
    unfolding reads_def Date_of_def Clock_def Nanosecond_of_def wall_def day_ns Let_def
    using dv md ns by (simp add: Second_def Nanosecond_def)
qed

lemma Truncate_utc:
  assumes "loc now = 0"
  shows "Truncate now (24 * Hour) = \<lparr>nanos = (nanos now div 86400000000000) * 86400000000000, loc = 0\<rparr>"
proof -
  have "nanos now - nanos now mod 86400000000000
          = (nanos now div 86400000000000) * 86400000000000"
    by (simp add: minus_mod_eq_div_mult)
  then show ?thesis
    using assms unfolding Truncate_def day_ns by (cases now) simp
qed

lemma currentEndOfDay_utc:
  assumes "loc now = 0"
  shows "currentEndOfDay now
           = \<lparr>nanos = (nanos now div 86400000000000) * 86400000000000 + 86399999999999, loc = 0\<rparr>"
  unfolding currentEndOfDay_def Truncate_utc [OF assms]
  by (simp add: Add_def Hour_def Second_def Nanosecond_def)

lemma Date_of_utc:
  assumes "loc now = 0"
  shows "Date_of now = absDate (nanos now div 86400000000000)"
  using assms by (simp add: Date_of_def wall_def day_ns)

lemma Date_utc:
  assumes "1 \<le> m" "m \<le> 12"
  shows "Date y m d h mi s ns 0
           = \<lparr>nanos = daysFromCivil y m d * 86400000000000
                      + ((h * 3600 + mi * 60 + s) * 1000000000 + ns), loc = 0\<rparr>"
proof -
  have "(m - 1) div 12 = 0" using assms by (intro div_eqI) auto
  moreover have "(m - 1) mod 12 = m - 1" using assms by simp
  ultimately show ?thesis
    unfolding Date_def Let_def by (simp add: Second_def Nanosecond_def algebra_simps)
qed

lemma daysFromCivil_shift: "daysFromCivil y m (d + k) = daysFromCivil y m d + k"
  by (simp add: daysFromCivil_def)

lemma daysIn_pos: "1 \<le> m \<Longrightarrow> m \<le> 12 \<Longrightarrow> 1 \<le> daysIn y m"
proof -
  assume "1 \<le> m" "m \<le> 12"
  then have "m \<in> set [1..12]" by simp
  moreover have "list_all (\<lambda>m. 28 \<le> daysBefore m - daysBefore (m - 1)) [1..12]"
    by code_simp
  ultimately have "28 \<le> daysBefore m - daysBefore (m - 1)"
    unfolding list_all_iff by blast
  moreover have "0 \<le> (if m = 2 \<and> isLeap y then 1 else 0 :: int)" by simp
  ultimately show ?thesis unfolding daysIn_def by linarith
qed

text \<open>The first instant of a month, whatever month number is given.\<close>

lemma first_of_month:
  "Date y m 1 0 0 0 0 0
     = \<lparr>nanos = daysFromCivil (y + (m - 1) div 12) ((m - 1) mod 12 + 1) 1 * 86400000000000,
        loc = 0\<rparr>"
  unfolding Date_def Let_def by (simp add: Second_def Nanosecond_def)

lemma reads_first_of_month:
  "reads (Date y m 1 0 0 0 0 0) (y + (m - 1) div 12, (m - 1) mod 12 + 1, 1) (0, 0, 0) 0"
proof -
  let ?y = "y + (m - 1) div 12" and ?m = "(m - 1) mod 12 + 1"
  have m: "1 \<le> ?m" "?m \<le> 12"
  proof -
    have "0 \<le> (m - 1) mod 12" "(m - 1) mod 12 < 12" by simp_all
    then show "1 \<le> ?m" "?m \<le> 12" by linarith+
  qed
  have "absDate (daysFromCivil ?y ?m 1) = (?y, ?m, 1)"
    using m daysIn_pos [OF m] by (intro absDate_daysFromCivil) simp_all
  then show ?thesis
    using instant_parts [of 0 "daysFromCivil ?y ?m 1"]
    unfolding first_of_month by simp
qed

lemma monthsBefore_eq:
  "monthsBefore n (y, m) = (y + (m - n - 1) div 12, (m - n - 1) mod 12 + 1)"
proof -
  have eq: "y * 12 + (m - 1) - n = (m - n - 1) + y * 12" by simp
  have "(y * 12 + (m - 1) - n) div 12 = (m - n - 1) div 12 + y"
    unfolding eq by simp
  moreover have "(y * 12 + (m - 1) - n) mod 12 = (m - n - 1) mod 12"
    unfolding eq by (rule mod_mult_self1)
  ultimately show ?thesis
    unfolding monthsBefore_def Let_def by simp
qed

text \<open>The day before the first of a month is the last day of the month before.\<close>

lemma day_before_first:
  assumes "1 \<le> m" "m \<le> 12" "monthsBefore 1 (y, m) = (py, pm)"
  shows "daysFromCivil y m 1 - 1 = daysFromCivil py pm (daysIn py pm)"
    and "1 \<le> pm" "pm \<le> 12"
proof -
  have p: "if m = 1 then py = y - 1 \<and> pm = 12 else py = y \<and> pm = m - 1"
  proof (cases "m = 1")
    case True
    have "(- 1) div (12 :: int) = - 1" "(- 1) mod (12 :: int) = 11" by simp_all
    then show ?thesis using assms(3) True unfolding monthsBefore_eq by simp
  next
    case False
    then have "(m - 1 - 1) div 12 = 0" using assms(1,2) by (intro div_eqI) auto
    moreover have "(m - 1 - 1) mod 12 = m - 2" using False assms(1,2) by simp
    ultimately show ?thesis using assms(3) False unfolding monthsBefore_eq by simp
  qed
  show "1 \<le> pm" "pm \<le> 12" using p assms(1,2) by (auto split: if_splits)
  show "daysFromCivil y m 1 - 1 = daysFromCivil py pm (daysIn py pm)"
  proof (cases "m = 1")
    case True
    then have py: "py = y - 1" and pm: "pm = 12" using p by simp_all
    have "daysSinceEpoch y = daysSinceEpoch (y - 1) + (if isLeap (y - 1) then 366 else 365)"
      using daysSinceEpoch_Suc [of "y - 1"] by simp
    then show ?thesis
      unfolding py pm True daysFromCivil_def daysIn_def
      by (simp add: daysBefore_def)
  next
    case False
    then have py: "py = y" and pm: "pm = m - 1" using p by simp_all
    have "(if isLeap y \<and> 3 \<le> m then 1 else 0 :: int)
            = (if isLeap y \<and> 3 \<le> m - 1 then 1 else 0)
              + (if m - 1 = 2 \<and> isLeap y then 1 else 0)"
      by auto
    then show ?thesis
      unfolding py pm daysFromCivil_def daysIn_def by linarith
  qed
qed

lemma reads_first_valid:
  assumes "1 \<le> m" "m \<le> 12"
  shows "reads (Date y m 1 0 0 0 0 0) (y, m, 1) (0, 0, 0) 0"
proof -
  have "(m - 1) div 12 = 0" using assms by (intro div_eqI) auto
  moreover have "(m - 1) mod 12 = m - 1" using assms by simp
  ultimately show ?thesis using reads_first_of_month [of y m] by simp
qed

lemma today:
  assumes "loc now = 0" "Date_of now = (y, m, d)"
  shows "1 \<le> m" "m \<le> 12" "1 \<le> d" "d \<le> daysIn y m"
    "nanos now div 86400000000000 = daysFromCivil y m d"
    "Year now = y" "Month now = m"
proof -
  have "absDate (nanos now div 86400000000000) = (y, m, d)"
    using assms Date_of_utc by simp
  from absDate_forward [OF this]
  show "1 \<le> m" "m \<le> 12" "1 \<le> d" "d \<le> daysIn y m"
    "nanos now div 86400000000000 = daysFromCivil y m d"
    by simp_all
  show "Year now = y" "Month now = m"
    using assms(2) by (simp_all add: Year_def Month_def)
qed

lemma reads_currentEndOfDay:
  assumes "loc now = 0" "Date_of now = (y, m, d)"
  shows "reads (currentEndOfDay now) (y, m, d) (23, 59, 59) 999999999"
proof -
  have "absDate (nanos now div 86400000000000) = (y, m, d)"
    using assms Date_of_utc by simp
  then show ?thesis
    using instant_parts [of 86399999999999 "nanos now div 86400000000000"]
    unfolding currentEndOfDay_utc [OF assms(1)] by simp
qed

lemma reads_start_of_day:
  assumes "loc now = 0" "Date_of now = (y, m, d)"
  shows "reads (Truncate now (24 * Hour)) (y, m, d) (0, 0, 0) 0"
proof -
  have "absDate (nanos now div 86400000000000) = (y, m, d)"
    using assms Date_of_utc by simp
  then show ?thesis
    using instant_parts [of 0 "nanos now div 86400000000000"]
    unfolding Truncate_utc [OF assms(1)] by simp
qed

text \<open>Going back \<open>k\<close> days from the end of today and truncating.\<close>

lemma days_back:
  assumes "loc now = 0" "Date_of now = (y, m, d)"
  shows "Truncate (AddDate (currentEndOfDay now) 0 0 (- k)) (24 * Hour)
           = Add (Truncate now (24 * Hour)) (- k * (24 * Hour))"
proof -
  let ?n = "nanos now div 86400000000000"
  note t = today [OF assms]
  have E: "reads (currentEndOfDay now) (y, m, d) (23, 59, 59) 999999999"
    by (rule reads_currentEndOfDay [OF assms])
  have locE: "loc (currentEndOfDay now) = 0"
    unfolding currentEndOfDay_utc [OF assms(1)] by simp
  have "AddDate (currentEndOfDay now) 0 0 (- k) = Date y m (d + - k) 23 59 59 999999999 0"
    using E locE unfolding reads_def AddDate_def by simp
  also have "\<dots> = \<lparr>nanos = daysFromCivil y m (d + - k) * 86400000000000
                      + ((23 * 3600 + 59 * 60 + 59) * 1000000000 + 999999999), loc = 0\<rparr>"
    by (rule Date_utc [OF t(1,2)])
  also have "\<dots> = \<lparr>nanos = (?n - k) * 86400000000000 + 86399999999999, loc = 0\<rparr>"
    unfolding daysFromCivil_shift t(5) by simp
  finally have A: "AddDate (currentEndOfDay now) 0 0 (- k)
      = \<lparr>nanos = (?n - k) * 86400000000000 + 86399999999999, loc = 0\<rparr>" .
  have dv: "((?n - k) * 86400000000000 + 86399999999999) div 86400000000000 = ?n - k"
    by (intro div_eqI) auto
  have "Truncate (AddDate (currentEndOfDay now) 0 0 (- k)) (24 * Hour)
          = \<lparr>nanos = (?n - k) * 86400000000000, loc = 0\<rparr>"
    unfolding A using Truncate_utc [of "\<lparr>nanos = (?n - k) * 86400000000000 + 86399999999999, loc = 0\<rparr>"]
    unfolding Time.simps dv by simp
  also have "\<dots> = Add (Truncate now (24 * Hour)) (- k * (24 * Hour))"
    unfolding Truncate_utc [OF assms(1)] unfolding day_ns Add_def
    by (simp add: algebra_simps)
  finally show ?thesis .
qed

lemma Truncate_first_of_month:
  "Truncate (Date y m 1 0 0 0 0 0) (24 * Hour) = Date y m 1 0 0 0 0 0"
proof -
  let ?k = "daysFromCivil (y + (m - 1) div 12) ((m - 1) mod 12 + 1) 1"
  have "Truncate \<lparr>nanos = ?k * 86400000000000, loc = 0\<rparr> (24 * Hour)
          = \<lparr>nanos = ?k * 86400000000000, loc = 0\<rparr>"
    using Truncate_utc [of "\<lparr>nanos = ?k * 86400000000000, loc = 0\<rparr>"] by simp
  then show ?thesis unfolding first_of_month .
qed

lemma months_back:
  assumes "1 \<le> m" "m \<le> 12" "monthsBefore n (y, m) = (y', m')"
  shows "AddDate (Date y m 1 0 0 0 0 0) 0 (- n) 0 = Date y (m - n) 1 0 0 0 0 0"
    and "reads (Date y (m - n) 1 0 0 0 0 0) (y', m', 1) (0, 0, 0) 0"
proof -
  have F: "reads (Date y m 1 0 0 0 0 0) (y, m, 1) (0, 0, 0) 0"
    by (rule reads_first_valid [OF assms(1,2)])
  have locF: "loc (Date y m 1 0 0 0 0 0) = 0"
    unfolding first_of_month by simp
  show "AddDate (Date y m 1 0 0 0 0 0) 0 (- n) 0 = Date y (m - n) 1 0 0 0 0 0"
    using F locF unfolding reads_def AddDate_def by simp
  have "y' = y + (m - n - 1) div 12" "m' = (m - n - 1) mod 12 + 1"
    using assms(3) unfolding monthsBefore_eq by simp_all
  then show "reads (Date y (m - n) 1 0 0 0 0 0) (y', m', 1) (0, 0, 0) 0"
    using reads_first_of_month [of y "m - n"] by simp
qed

lemma end_of_last_month:
  assumes "1 \<le> m" "m \<le> 12" "monthsBefore 1 (y, m) = (py, pm)"
  shows "reads (Add (Date y m 1 0 0 0 0 0) (- Nanosecond)) (py, pm, daysIn py pm)
           (23, 59, 59) 999999999"
proof -
  have m1: "(m - 1) div 12 = 0" using assms(1,2) by (intro div_eqI) auto
  have m2: "(m - 1) mod 12 = m - 1" using assms(1,2) by simp
  note p = day_before_first [OF assms]
  have "Add (Date y m 1 0 0 0 0 0) (- Nanosecond)
          = \<lparr>nanos = (daysFromCivil y m 1 - 1) * 86400000000000 + 86399999999999, loc = 0\<rparr>"
    unfolding first_of_month m1 m2 Add_def Nanosecond_def by (simp add: algebra_simps)
  moreover have "absDate (daysFromCivil y m 1 - 1) = (py, pm, daysIn py pm)"
    unfolding p(1) using p(2,3) daysIn_pos [OF p(2,3)]
    by (intro absDate_daysFromCivil) simp_all
  ultimately show ?thesis
    using instant_parts [of 86399999999999 "daysFromCivil y m 1 - 1"] by simp
qed

text \<open>
  In UTC the resolver gives the windows of the period table. With today the date
  \<open>(y, m, d)\<close>: \<open>7days\<close> and \<open>30days\<close> start at the midnight 6 and 29 days before today's,
  \<open>3months\<close> at the first midnight of the month two months before this one,
  \<open>currentmonth\<close> at the first midnight of this month, and they end at the last
  nanosecond of today; \<open>lastmonth\<close> runs from the first midnight to the last nanosecond
  of the month before this one.
\<close>

theorem resolveDateRange_table_in_utc:
  assumes "loc now = 0" and "Date_of now = (y, m, d)"
    and "monthsBefore 2 (y, m) = (y3, m3)" and "monthsBefore 1 (y, m) = (py, pm)"
  shows "(case resolveDateRange now (periodRequest ''7days'') of
            Inl err \<Rightarrow> False
          | Inr (f, t) \<Rightarrow> reads (Add f (6 * (24 * Hour))) (y, m, d) (0, 0, 0) 0
                          \<and> reads t (y, m, d) (23, 59, 59) 999999999)
       \<and> (case resolveDateRange now (periodRequest ''30days'') of
            Inl err \<Rightarrow> False
          | Inr (f, t) \<Rightarrow> reads (Add f (29 * (24 * Hour))) (y, m, d) (0, 0, 0) 0
                          \<and> reads t (y, m, d) (23, 59, 59) 999999999)
       \<and> (case resolveDateRange now (periodRequest ''3months'') of
            Inl err \<Rightarrow> False
          | Inr (f, t) \<Rightarrow> reads f (y3, m3, 1) (0, 0, 0) 0
                          \<and> reads t (y, m, d) (23, 59, 59) 999999999)
       \<and> (case resolveDateRange now (periodRequest ''currentmonth'') of
            Inl err \<Rightarrow> False
          | Inr (f, t) \<Rightarrow> reads f (y, m, 1) (0, 0, 0) 0
                          \<and> reads t (y, m, d) (23, 59, 59) 999999999)
       \<and> (case resolveDateRange now (periodRequest ''lastmonth'') of
            Inl err \<Rightarrow> False
          | Inr (f, t) \<Rightarrow> reads f (py, pm, 1) (0, 0, 0) 0
                          \<and> reads t (py, pm, daysIn py pm) (23, 59, 59) 999999999)"
proof -
  note t = today [OF assms(1,2)]
  have E: "reads (currentEndOfDay now) (y, m, d) (23, 59, 59) 999999999"
    by (rule reads_currentEndOfDay [OF assms(1,2)])
  have S: "reads (Truncate now (24 * Hour)) (y, m, d) (0, 0, 0) 0"
    by (rule reads_start_of_day [OF assms(1,2)])
  have forth: "Add (Add (Truncate now (24 * Hour)) (- k * (24 * Hour))) (k * (24 * Hour))
                = Truncate now (24 * Hour)" for k
    by (simp add: Add_def)
  have r7: "resolveDateRange now (periodRequest ''7days'')
              = Inr (Add (Truncate now (24 * Hour)) (- 6 * (24 * Hour)), currentEndOfDay now)"
    using days_back [OF assms(1,2), of 6]
    by (simp add: resolveDateRange_def periodRequest_def resolvePeriod_def currentEndOfDay_def)
  have r30: "resolveDateRange now (periodRequest ''30days'')
              = Inr (Add (Truncate now (24 * Hour)) (- 29 * (24 * Hour)), currentEndOfDay now)"
    using days_back [OF assms(1,2), of 29]
    by (simp add: resolveDateRange_def periodRequest_def resolvePeriod_def currentEndOfDay_def)
  have r3: "resolveDateRange now (periodRequest ''3months'')
              = Inr (Date y (m - 2) 1 0 0 0 0 0, currentEndOfDay now)"
    using months_back(1) [OF t(1,2) assms(3)] Truncate_first_of_month [of y "m - 2"]
    by (simp add: resolveDateRange_def periodRequest_def resolvePeriod_def currentEndOfDay_def
          t(6,7) assms(1))
  have rc: "resolveDateRange now (periodRequest ''currentmonth'')
              = Inr (Date y m 1 0 0 0 0 0, currentEndOfDay now)"
    by (simp add: resolveDateRange_def periodRequest_def resolvePeriod_def currentEndOfDay_def
          t(6,7) assms(1))
  have L: "reads (Add (Date y m 1 0 0 0 0 0) (- Nanosecond)) (py, pm, daysIn py pm)
             (23, 59, 59) 999999999"
    by (rule end_of_last_month [OF t(1,2) assms(4)])
  then have "Year (Add (Date y m 1 0 0 0 0 0) (- Nanosecond)) = py"
    and "Month (Add (Date y m 1 0 0 0 0 0) (- Nanosecond)) = pm"
    by (simp_all add: reads_def Year_def Month_def)
  then have rl: "resolveDateRange now (periodRequest ''lastmonth'')
              = Inr (Date py pm 1 0 0 0 0 0, Add (Date y m 1 0 0 0 0 0) (- Nanosecond))"
    by (simp add: resolveDateRange_def periodRequest_def resolvePeriod_def Let_def
          t(6,7) assms(1))
  note p = day_before_first [OF t(1,2) assms(4)]
  show ?thesis
    unfolding r7 r30 r3 rc rl
    using E S L forth [of 6] forth [of 29] months_back(2) [OF t(1,2) assms(3)]
      reads_first_valid [OF t(1,2), of y] reads_first_valid [OF p(2,3), of py]
    by simp
qed

text \<open>
  At noon UTC on 2024-03-15: \<open>currentmonth\<close> runs from 2024-03-01T00:00:00 to
  2024-03-15T23:59:59.999999999, \<open>3months\<close> starts on 2024-01-01, and \<open>lastmonth\<close> is
  February 2024 with its 29 days.
\<close>

theorem resolveDateRange_table_in_utc_witness:
  "loc (Date 2024 3 15 12 0 0 0 0) = 0
   \<and> Date_of (Date 2024 3 15 12 0 0 0 0) = (2024, 3, 15)
   \<and> monthsBefore 2 (2024, 3) = (2024, 1)
   \<and> monthsBefore 1 (2024, 3) = (2024, 2)
   \<and> daysIn 2024 2 = 29
   \<and> (case resolveDateRange (Date 2024 3 15 12 0 0 0 0) (periodRequest ''3months'') of
        Inl err \<Rightarrow> False
      | Inr (f, t) \<Rightarrow> reads f (2024, 1, 1) (0, 0, 0) 0
                      \<and> reads t (2024, 3, 15) (23, 59, 59) 999999999)
   \<and> (case resolveDateRange (Date 2024 3 15 12 0 0 0 0) (periodRequest ''currentmonth'') of
        Inl err \<Rightarrow> False
      | Inr (f, t) \<Rightarrow> reads f (2024, 3, 1) (0, 0, 0) 0
                      \<and> reads t (2024, 3, 15) (23, 59, 59) 999999999)
   \<and> (case resolveDateRange (Date 2024 3 15 12 0 0 0 0) (periodRequest ''lastmonth'') of
        Inl err \<Rightarrow> False
      | Inr (f, t) \<Rightarrow> reads f (2024, 2, 1) (0, 0, 0) 0
                      \<and> reads t (2024, 2, daysIn 2024 2) (23, 59, 59) 999999999)"
proof -
  have h: "loc (Date 2024 3 15 12 0 0 0 0) = 0"
    "Date_of (Date 2024 3 15 12 0 0 0 0) = (2024, 3, 15)"
    "monthsBefore 2 (2024, 3) = (2024, 1)"
    "monthsBefore 1 (2024, 3) = (2024, 2)"
    by code_simp+
  have d: "daysIn 2024 2 = 29" by code_simp
  note r = resolveDateRange_table_in_utc [OF h]
  show ?thesis
    using h d r [THEN conjunct2, THEN conjunct2] by (intro conjI) (rule TrueI | assumption | blast)+
qed

section \<open>Runs of the two entry points\<close>

text \<open>
  The id the run works with after \<open>LogAccess\<close>, and the status it writes at its end.
\<close>

lemma fst_operationRepo_LogAccess:
  "fst (operationRepo_LogAccess env w log) =
     (case log_access_err env of
        None \<Rightarrow> (next_log_id (appDB w), None)
      | Some e \<Rightarrow> (0, Some (Wrap ''error logging access'' e)))"
  by (simp add: operationRepo_LogAccess_def LogAccess_def split: option.splits)

lemma snd_operationRepo_LogAccess:
  "snd (operationRepo_LogAccess env w log) =
     w\<lparr>appDB := snd (LogAccess (appDB w) (log_access_err env) log),
       calls := calls w @ [CallLogAccess log]\<rparr>"
  by (simp add: operationRepo_LogAccess_def split: prod.splits)

lemma calls_updateLogStatus:
  "calls (updateLogStatus env w logID status) =
     calls w @ (if logID \<le> 0 then [] else [CallUpdateLogStatus logID status])"
  by (simp add: updateLogStatus_def operationRepo_UpdateLogStatus_def split: prod.splits)

lemma appDB_updateLogStatus:
  "appDB (updateLogStatus env w logID status) =
     (if logID \<le> 0 then appDB w
      else snd (UpdateLogStatus (appDB w) (update_err env) logID status))"
  by (simp add: updateLogStatus_def operationRepo_UpdateLogStatus_def split: prod.splits)

lemma window_Inl:
  "window env request = Inl err \<Longrightarrow>
     GetInventoryReportData env w userID departmentID request = (Inl err, w)
     \<and> ExportInventoryReport env w userID departmentID request = (Inl err, w)"
  by (auto simp: window_def GetInventoryReportData_def ExportInventoryReport_def
      split: sum.splits option.splits)

lemma window_Inr:
  "window env request = Inr (f, t) \<Longrightarrow>
     resolveDateRange (time_Now env) request = Inr (f, t)
     \<and> validateDateRange (time_Now env) (MaxSearchMonths env) f t = None"
  by (auto simp: window_def split: sum.splits option.splits)

lemma view_run:
  assumes "window env request = Inr (f, t)"
  shows "GetInventoryReportData env w userID departmentID request =
     (let logID = fst (fst (operationRepo_LogAccess env w (newAccessLog env userID 1 request f t)));
          w1 = snd (operationRepo_LogAccess env w (newAccessLog env userID 1 request f t));
          w2 = w1\<lparr>calls := calls w1 @ [CallGetInventoryReport f t departmentID]\<rparr>
      in case GetInventoryReport (erpDB w) f t departmentID of
           Inl e \<Rightarrow> (Inl (DataSourceFailure (Wrap ''error querying inventory data'' e)),
                     updateLogStatus env w2 logID ''error'')
         | Inr items \<Rightarrow> (Inr items, updateLogStatus env w2 logID ''success''))"
proof -
  obtain logID err w1 where L:
    "operationRepo_LogAccess env w (newAccessLog env userID 1 request f t) = ((logID, err), w1)"
    by (metis prod.exhaust)
  have "erpDB w1 = erpDB w"
    using L by (auto simp: operationRepo_LogAccess_def split: prod.splits)
  then show ?thesis
    using window_Inr [OF assms] L
    by (simp add: GetInventoryReportData_def inventoryRepo_GetInventoryReport_def Let_def
        split: sum.splits)
qed

lemma export_run:
  assumes "window env request = Inr (f, t)"
  shows "ExportInventoryReport env w userID departmentID request =
     (let logID = fst (fst (operationRepo_LogAccess env w (newAccessLog env userID 2 request f t)));
          w1 = snd (operationRepo_LogAccess env w (newAccessLog env userID 2 request f t));
          w2 = w1\<lparr>calls := calls w1 @ [CallGetInventoryReport f t departmentID]\<rparr>;
          w3 = w2\<lparr>calls := calls w2 @ [CallExportToExcel (exportTitle f t)]\<rparr>
      in case GetInventoryReport (erpDB w) f t departmentID of
           Inl e \<Rightarrow> (Inl (DataSourceFailure (Wrap ''error getting inventory data for export'' e)),
                     updateLogStatus env w2 logID ''error'')
         | Inr items \<Rightarrow>
             if items = [] then (Inl NoData, updateLogStatus env w2 logID ''success'')
             else
               (case ExportToExcel env (map itemRow items) exportHeaders (exportTitle f t) of
                  Inl e \<Rightarrow> (Inl (RenderFailure e), updateLogStatus env w3 logID ''error'')
                | Inr (filePath, fileDetail) \<Rightarrow>
                    (Inr \<lparr>fileReportName = exportTitle f t,
                          FileName = filepath_Base env filePath,
                          FileDetal = fileDetail,
                          fileGeneratedAt = time_Now env\<rparr>,
                     updateLogStatus env w3 logID ''success'')))"
proof -
  obtain logID err w1 where L:
    "operationRepo_LogAccess env w (newAccessLog env userID 2 request f t) = ((logID, err), w1)"
    by (metis prod.exhaust)
  have "erpDB w1 = erpDB w"
    using L by (auto simp: operationRepo_LogAccess_def split: prod.splits)
  then show ?thesis
    using window_Inr [OF assms] L
    by (simp add: ExportInventoryReport_def inventoryRepo_GetInventoryReport_def Let_def
        split: sum.splits prod.splits)
qed

text \<open>The calls of a run on a valid window, in order.\<close>

lemma view_calls:
  assumes "window env request = Inr (f, t)"
  shows "new_calls w (snd (GetInventoryReportData env w userID departmentID request)) =
     CallLogAccess (newAccessLog env userID 1 request f t)
     # CallGetInventoryReport f t departmentID
     # (case log_access_err env of
          Some e \<Rightarrow> []
        | None \<Rightarrow>
            if next_log_id (appDB w) \<le> 0 then []
            else [CallUpdateLogStatus (next_log_id (appDB w))
                    (case GetInventoryReport (erpDB w) f t departmentID of
                       Inl e \<Rightarrow> ''error'' | Inr items \<Rightarrow> ''success'')])"
  by (simp add: view_run [OF assms] Let_def new_calls_def calls_updateLogStatus
      fst_operationRepo_LogAccess snd_operationRepo_LogAccess
      split: sum.splits option.splits)

lemma export_calls:
  assumes "window env request = Inr (f, t)"
  shows "new_calls w (snd (ExportInventoryReport env w userID departmentID request)) =
     CallLogAccess (newAccessLog env userID 2 request f t)
     # CallGetInventoryReport f t departmentID
     # (case GetInventoryReport (erpDB w) f t departmentID of
          Inl e \<Rightarrow> []
        | Inr items \<Rightarrow> if items = [] then [] else [CallExportToExcel (exportTitle f t)])
     @ (case log_access_err env of
          Some e \<Rightarrow> []
        | None \<Rightarrow>
            if next_log_id (appDB w) \<le> 0 then []
            else [CallUpdateLogStatus (next_log_id (appDB w))
                    (case fst (ExportInventoryReport env w userID departmentID request) of
                       Inl NoData \<Rightarrow> ''success''
                     | Inl e \<Rightarrow> ''error''
                     | Inr r \<Rightarrow> ''success'')])"
  by (simp add: export_run [OF assms] Let_def new_calls_def calls_updateLogStatus
      fst_operationRepo_LogAccess snd_operationRepo_LogAccess
      split: sum.splits option.splits prod.splits)

section \<open>Validation of a window\<close>

text \<open>
  Claim C4. A window is to be refused with \<open>FutureDate\<close> exactly when it ends after the
  current end of day, which the specification counts in the caller's civil calendar.
  The code takes the end of the day from \<open>Truncate\<close>, which cuts at midnight UTC (the
  defect of the resolver, claim C3). With the clock at noon on 2024-03-15 in a location
  seven hours east of UTC, the civil day ends at 23:59:59.999999999; a window ending at
  03:00 on 2024-03-16, after that end, passes every check, and a request with that end
  date gets through the entry points with a window that ends after the civil day. With
  the clock at 03:00 on the same day, the window of that day itself, ending with the
  civil day, is refused as lying in the future, and so is a request for that one day.
  The scenario of the claim, at midnight UTC on 2024-01-01 with six months of lookback,
  is refused with \<open>WindowTooWide\<close>, and an inverted window with \<open>InvertedRange\<close>.
\<close>

theorem validateDateRange_end_of_day_east_of_utc:
  "reads (spec_endOfDay (Date 2024 3 15 12 0 0 0 (7 * 3600))) (2024, 3, 15) (23, 59, 59) 999999999
   \<and> After (Date 2024 3 16 3 0 0 0 (7 * 3600))
        (spec_endOfDay (Date 2024 3 15 12 0 0 0 (7 * 3600)))
   \<and> validateDateRange (Date 2024 3 15 12 0 0 0 (7 * 3600)) 6
        (Date 2024 3 10 0 0 0 0 (7 * 3600)) (Date 2024 3 16 3 0 0 0 (7 * 3600)) = None
   \<and> (case window (exampleEnv\<lparr>time_Now := Date 2024 3 15 12 0 0 0 (7 * 3600)\<rparr>)
              (explicitRequest (Date 2024 3 10 0 0 0 0 (7 * 3600))
                 (Date 2024 3 16 3 0 0 0 (7 * 3600))) of
         Inl err \<Rightarrow> False
       | Inr (f, t) \<Rightarrow> After t (spec_endOfDay (Date 2024 3 15 12 0 0 0 (7 * 3600))))
   \<and> reads (spec_endOfDay (Date 2024 3 15 3 0 0 0 (7 * 3600))) (2024, 3, 15) (23, 59, 59) 999999999
   \<and> After (Date 2024 3 15 23 59 59 999999999 (7 * 3600))
        (spec_endOfDay (Date 2024 3 15 3 0 0 0 (7 * 3600))) = False
   \<and> validateDateRange (Date 2024 3 15 3 0 0 0 (7 * 3600)) 6
        (Date 2024 3 15 0 0 0 0 (7 * 3600)) (Date 2024 3 15 23 59 59 999999999 (7 * 3600))
      = Some FutureDate
   \<and> Date_of (Date 2024 3 15 12 0 0 0 (7 * 3600)) = Date_of (Date 2024 3 15 3 0 0 0 (7 * 3600))
   \<and> window (exampleEnv\<lparr>time_Now := Date 2024 3 15 3 0 0 0 (7 * 3600)\<rparr>)
        (explicitRequest (Date 2024 3 15 0 0 0 0 (7 * 3600))
           (Date 2024 3 15 12 0 0 0 (7 * 3600)))
      = Inl FutureDate
   \<and> validateDateRange (Date 2024 1 1 0 0 0 0 0) 6
        (Date 2023 1 1 0 0 0 0 0) (Date 2023 1 31 0 0 0 0 0) = Some (WindowTooWide 6)
   \<and> validateDateRange (Date 2024 1 1 0 0 0 0 0) 6
        (Date 2023 8 1 0 0 0 0 0) (Date 2023 7 1 0 0 0 0 0) = Some InvertedRange"
  by code_simp

lemma new_calls_same [simp]: "new_calls w w = []"
  by (simp add: new_calls_def)

lemma calls_view_extends:
  "calls (snd (GetInventoryReportData env w userID departmentID request)) =
     calls w @ new_calls w (snd (GetInventoryReportData env w userID departmentID request))"
proof (cases "window env request")
  case (Inl err)
  then show ?thesis by (simp add: window_Inl)
next
  case (Inr p)
  obtain f t where "p = (f, t)" by (cases p)
  with Inr have W: "window env request = Inr (f, t)" by simp
  show ?thesis
    by (simp add: view_run [OF W] Let_def new_calls_def calls_updateLogStatus
        snd_operationRepo_LogAccess split: sum.splits)
qed

lemma calls_export_extends:
  "calls (snd (ExportInventoryReport env w userID departmentID request)) =
     calls w @ new_calls w (snd (ExportInventoryReport env w userID departmentID request))"
proof (cases "window env request")
  case (Inl err)
  then show ?thesis by (simp add: window_Inl)
next
  case (Inr p)
  obtain f t where "p = (f, t)" by (cases p)
  with Inr have W: "window env request = Inr (f, t)" by simp
  show ?thesis
    by (simp add: export_run [OF W] Let_def new_calls_def calls_updateLogStatus
        snd_operationRepo_LogAccess split: sum.splits prod.splits)
qed

lemma view_no_permission_query:
  "\<forall>c \<in> set (new_calls w (snd (GetInventoryReportData env w userID departmentID request))).
     \<not> isPermissionQuery c"
proof (cases "window env request")
  case (Inl err)
  then show ?thesis by (simp add: window_Inl)
next
  case (Inr p)
  obtain f t where "p = (f, t)" by (cases p)
  with Inr have W: "window env request = Inr (f, t)" by simp
  show ?thesis
    by (simp add: view_calls [OF W] split: option.splits)
qed

lemma export_no_permission_query:
  "\<forall>c \<in> set (new_calls w (snd (ExportInventoryReport env w userID departmentID request))).
     \<not> isPermissionQuery c"
proof (cases "window env request")
  case (Inl err)
  then show ?thesis by (simp add: window_Inl)
next
  case (Inr p)
  obtain f t where "p = (f, t)" by (cases p)
  with Inr have W: "window env request = Inr (f, t)" by simp
  show ?thesis
    by (auto simp: export_calls [OF W] split: option.splits sum.splits if_splits)
qed

text \<open>What a run on a valid window returns: it is read off the answer of the data source.\<close>

lemma view_result:
  assumes "window env request = Inr (f, t)"
  shows "fst (GetInventoryReportData env w userID departmentID request) =
     (case GetInventoryReport (erpDB w) f t departmentID of
        Inl e \<Rightarrow> Inl (DataSourceFailure (Wrap ''error querying inventory data'' e))
      | Inr items \<Rightarrow> Inr items)"
  by (simp add: view_run [OF assms] Let_def split: sum.splits)

lemma export_result:
  assumes "window env request = Inr (f, t)"
  shows "fst (ExportInventoryReport env w userID departmentID request) =
     (case GetInventoryReport (erpDB w) f t departmentID of
        Inl e \<Rightarrow> Inl (DataSourceFailure (Wrap ''error getting inventory data for export'' e))
      | Inr items \<Rightarrow>
          if items = [] then Inl NoData
          else
            (case ExportToExcel env (map itemRow items) exportHeaders (exportTitle f t) of
               Inl e \<Rightarrow> Inl (RenderFailure e)
             | Inr (filePath, fileDetail) \<Rightarrow>
                 Inr \<lparr>fileReportName = exportTitle f t,
                      FileName = filepath_Base env filePath,
                      FileDetal = fileDetail,
                      fileGeneratedAt = time_Now env\<rparr>))"
  by (simp add: export_run [OF assms] Let_def split: sum.splits prod.splits)

lemma view_result_any_grants:
  "fst (GetInventoryReportData env (w\<lparr>appDB := db\<rparr>) u departmentID request)
     = fst (GetInventoryReportData env w userID departmentID request)"
proof (cases "window env request")
  case (Inl err)
  then show ?thesis by (simp add: window_Inl)
next
  case (Inr p)
  obtain f t where "p = (f, t)" by (cases p)
  with Inr have W: "window env request = Inr (f, t)" by simp
  show ?thesis by (simp add: view_result [OF W])
qed

lemma export_result_any_grants:
  "fst (ExportInventoryReport env (w\<lparr>appDB := db\<rparr>) u departmentID request)
     = fst (ExportInventoryReport env w userID departmentID request)"
proof (cases "window env request")
  case (Inl err)
  then show ?thesis by (simp add: window_Inl)
next
  case (Inr p)
  obtain f t where "p = (f, t)" by (cases p)
  with Inr have W: "window env request = Inr (f, t)" by simp
  show ?thesis by (simp add: export_result [OF W])
qed

lemma view_handler_result:
  "fst (ReportHandler_GetInventoryReportData env w userID departmentID request) =
     (case fst (GetInventoryReportData env w userID departmentID request) of
        Inl err \<Rightarrow>
          if err = NilDereference then recovered
          else if err = NoData
          then ErrorResponse 404 ''No Data Found''
                 (Text ''No data available for the selected period.'')
          else ErrorResponse 500 ''Error retrieving report data'' (OfError err)
      | Inr items \<Rightarrow>
          SuccessResponse 200
            \<lparr>ReportName = reportTitle request, GeneratedAt = time_Now env, Items = items\<rparr>)"
  by (simp add: ReportHandler_GetInventoryReportData_def split: prod.splits sum.splits)

lemma export_handler_result:
  "fst (ReportHandler_ExportInventoryReport env w userID departmentID request) =
     (case fst (ExportInventoryReport env w userID departmentID request) of
        Inl err \<Rightarrow>
          if err = NilDereference then recovered
          else if err = NoData
          then ErrorResponse 404 ''No Data Found''
                 (Text ''No data found for the specified date range to export.'')
          else ErrorResponse 500 ''Error exporting report'' (OfError err)
      | Inr r \<Rightarrow> SendStream (FileName r) (FileDetal r))"
  by (simp add: ReportHandler_ExportInventoryReport_def split: prod.splits sum.splits)

section \<open>Order of the stages\<close>

text \<open>
  Claim C1, as the code has it. A run of either entry point whose window does not resolve
  or validate returns that error and reaches no collaborator. Every other run first
  attempts the audit write (\<open>LogAccess\<close>, with operation id 1 for the view and 2 for the
  export) and then queries the data source with the resolved window, in this order, and
  returns what the answer of the data source gives: the rows for the view, the rendered
  workbook for the export. No run makes a permission query (\<open>FindByCode\<close>,
  \<open>CheckUserOperationAccess\<close>), and the handler adds no call to those of the service.
  What the service and its handler return is the same for every caller \<open>u\<close> and every
  state \<open>db\<close> of the application database, so for every set of roles and grants.
\<close>

theorem pipeline_order_without_permission_query:
  "(case window env request of
      Inl err \<Rightarrow>
        GetInventoryReportData env w userID departmentID request = (Inl err, w)
        \<and> ExportInventoryReport env w userID departmentID request = (Inl err, w)
    | Inr (f, t) \<Rightarrow>
        (\<exists>rest. new_calls w (snd (GetInventoryReportData env w userID departmentID request)) =
                  CallLogAccess (newAccessLog env userID 1 request f t)
                  # CallGetInventoryReport f t departmentID # rest)
        \<and> (\<exists>rest. new_calls w (snd (ExportInventoryReport env w userID departmentID request)) =
                  CallLogAccess (newAccessLog env userID 2 request f t)
                  # CallGetInventoryReport f t departmentID # rest)
        \<and> fst (GetInventoryReportData env w userID departmentID request) =
            (case GetInventoryReport (erpDB w) f t departmentID of
               Inl e \<Rightarrow> Inl (DataSourceFailure (Wrap ''error querying inventory data'' e))
             | Inr items \<Rightarrow> Inr items)
        \<and> fst (ExportInventoryReport env w userID departmentID request) =
            (case GetInventoryReport (erpDB w) f t departmentID of
               Inl e \<Rightarrow>
                 Inl (DataSourceFailure (Wrap ''error getting inventory data for export'' e))
             | Inr items \<Rightarrow>
                 if items = [] then Inl NoData
                 else
                   (case ExportToExcel env (map itemRow items) exportHeaders
                           (exportTitle f t) of
                      Inl e \<Rightarrow> Inl (RenderFailure e)
                    | Inr (filePath, fileDetail) \<Rightarrow>
                        Inr \<lparr>fileReportName = exportTitle f t,
                             FileName = filepath_Base env filePath,
                             FileDetal = fileDetail,
                             fileGeneratedAt = time_Now env\<rparr>)))
   \<and> (\<forall>c \<in> set (new_calls w (snd (GetInventoryReportData env w userID departmentID request))).
         \<not> isPermissionQuery c)
   \<and> (\<forall>c \<in> set (new_calls w (snd (ExportInventoryReport env w userID departmentID request))).
         \<not> isPermissionQuery c)
   \<and> snd (ReportHandler_GetInventoryReportData env w userID departmentID request) =
       snd (GetInventoryReportData env w userID departmentID request)
   \<and> snd (ReportHandler_ExportInventoryReport env w userID departmentID request) =
       snd (ExportInventoryReport env w userID departmentID request)
   \<and> fst (GetInventoryReportData env (w\<lparr>appDB := db\<rparr>) u departmentID request) =
       fst (GetInventoryReportData env w userID departmentID request)
   \<and> fst (ExportInventoryReport env (w\<lparr>appDB := db\<rparr>) u departmentID request) =
       fst (ExportInventoryReport env w userID departmentID request)
   \<and> fst (ReportHandler_GetInventoryReportData env (w\<lparr>appDB := db\<rparr>) u departmentID request) =
       fst (ReportHandler_GetInventoryReportData env w userID departmentID request)
   \<and> fst (ReportHandler_ExportInventoryReport env (w\<lparr>appDB := db\<rparr>) u departmentID request) =
       fst (ReportHandler_ExportInventoryReport env w userID departmentID request)"
proof -
  have order: "case window env request of
      Inl err \<Rightarrow>
        GetInventoryReportData env w userID departmentID request = (Inl err, w)
        \<and> ExportInventoryReport env w userID departmentID request = (Inl err, w)
    | Inr (f, t) \<Rightarrow>
        (\<exists>rest. new_calls w (snd (GetInventoryReportData env w userID departmentID request)) =
                  CallLogAccess (newAccessLog env userID 1 request f t)
                  # CallGetInventoryReport f t departmentID # rest)
        \<and> (\<exists>rest. new_calls w (snd (ExportInventoryReport env w userID departmentID request)) =
                  CallLogAccess (newAccessLog env userID 2 request f t)
                  # CallGetInventoryReport f t departmentID # rest)
        \<and> fst (GetInventoryReportData env w userID departmentID request) =
            (case GetInventoryReport (erpDB w) f t departmentID of
               Inl e \<Rightarrow> Inl (DataSourceFailure (Wrap ''error querying inventory data'' e))
             | Inr items \<Rightarrow> Inr items)
        \<and> fst (ExportInventoryReport env w userID departmentID request) =
            (case GetInventoryReport (erpDB w) f t departmentID of
               Inl e \<Rightarrow>
                 Inl (DataSourceFailure (Wrap ''error getting inventory data for export'' e))
             | Inr items \<Rightarrow>
                 if items = [] then Inl NoData
                 else
                   (case ExportToExcel env (map itemRow items) exportHeaders
                           (exportTitle f t) of
                      Inl e \<Rightarrow> Inl (RenderFailure e)
                    | Inr (filePath, fileDetail) \<Rightarrow>
                        Inr \<lparr>fileReportName = exportTitle f t,
                             FileName = filepath_Base env filePath,
                             FileDetal = fileDetail,
                             fileGeneratedAt = time_Now env\<rparr>))"
  proof (cases "window env request")
    case (Inl err)
    then show ?thesis using window_Inl [of env request err] by simp
  next
    case (Inr p)
    obtain f t where "p = (f, t)" by (cases p)
    with Inr have W: "window env request = Inr (f, t)" by simp
    have calls:
      "\<exists>rest. new_calls w (snd (GetInventoryReportData env w userID departmentID request)) =
                  CallLogAccess (newAccessLog env userID 1 request f t)
                  # CallGetInventoryReport f t departmentID # rest"
      "\<exists>rest. new_calls w (snd (ExportInventoryReport env w userID departmentID request)) =
                  CallLogAccess (newAccessLog env userID 2 request f t)
                  # CallGetInventoryReport f t departmentID # rest"
      by (simp_all add: view_calls [OF W] export_calls [OF W])
    show ?thesis
      unfolding W sum.case prod.case
      using calls view_result [OF W, of w userID departmentID]
        export_result [OF W, of w userID departmentID]
      by blast
  qed
  have handlers:
    "snd (ReportHandler_GetInventoryReportData env w userID departmentID request) =
       snd (GetInventoryReportData env w userID departmentID request)"
    "snd (ReportHandler_ExportInventoryReport env w userID departmentID request) =
       snd (ExportInventoryReport env w userID departmentID request)"
    by (simp_all add: ReportHandler_GetInventoryReportData_def
        ReportHandler_ExportInventoryReport_def split: prod.splits sum.splits)
  have grants:
    "fst (GetInventoryReportData env (w\<lparr>appDB := db\<rparr>) u departmentID request) =
       fst (GetInventoryReportData env w userID departmentID request)"
    "fst (ExportInventoryReport env (w\<lparr>appDB := db\<rparr>) u departmentID request) =
       fst (ExportInventoryReport env w userID departmentID request)"
    by (rule view_result_any_grants, rule export_result_any_grants)
  have handler_grants:
    "fst (ReportHandler_GetInventoryReportData env (w\<lparr>appDB := db\<rparr>) u departmentID request) =
       fst (ReportHandler_GetInventoryReportData env w userID departmentID request)"
    "fst (ReportHandler_ExportInventoryReport env (w\<lparr>appDB := db\<rparr>) u departmentID request) =
       fst (ReportHandler_ExportInventoryReport env w userID departmentID request)"
    unfolding view_handler_result export_handler_result grants by (rule refl)+
  show ?thesis
    using order view_no_permission_query export_no_permission_query handlers grants
      handler_grants
    by blast
qed

section \<open>An empty result\<close>

text \<open>
  Claim C6. On a valid window for which the data source returns no row, the view returns
  the empty sequence without an error and the export returns \<open>NoData\<close> and never calls
  the exporter. Both finish the audit record as \<open>success\<close>: when \<open>LogAccess\<close> gave a
  positive id, the last call of the run is the status write \<open>success\<close> for that id, and
  when that write does not fail the row of the run (under a fresh id) has the status
  \<open>success\<close> afterwards.
\<close>

theorem empty_result_view_and_export:
  assumes "window env request = Inr (f, t)"
    and "GetInventoryReport (erpDB w) f t departmentID = Inr []"
  shows
    "fst (GetInventoryReportData env w userID departmentID request) = Inr []
     \<and> fst (ExportInventoryReport env w userID departmentID request) = Inl NoData
     \<and> filter isRender
         (new_calls w (snd (ExportInventoryReport env w userID departmentID request))) = []
     \<and> (log_access_err env = None \<and> 0 < next_log_id (appDB w) \<longrightarrow>
          new_calls w (snd (GetInventoryReportData env w userID departmentID request)) =
            [CallLogAccess (newAccessLog env userID 1 request f t),
             CallGetInventoryReport f t departmentID,
             CallUpdateLogStatus (next_log_id (appDB w)) ''success'']
          \<and> new_calls w (snd (ExportInventoryReport env w userID departmentID request)) =
            [CallLogAccess (newAccessLog env userID 2 request f t),
             CallGetInventoryReport f t departmentID,
             CallUpdateLogStatus (next_log_id (appDB w)) ''success''])
     \<and> (log_access_err env = None \<and> update_err env = None \<and> 0 < next_log_id (appDB w)
          \<and> audit_status w (next_log_id (appDB w)) = [] \<longrightarrow>
          audit_status (snd (GetInventoryReportData env w userID departmentID request))
            (next_log_id (appDB w)) = [''success'']
          \<and> audit_status (snd (ExportInventoryReport env w userID departmentID request))
            (next_log_id (appDB w)) = [''success''])"
proof -
  have results:
    "fst (GetInventoryReportData env w userID departmentID request) = Inr []"
    "fst (ExportInventoryReport env w userID departmentID request) = Inl NoData"
    by (simp_all add: view_run [OF assms(1)] export_run [OF assms(1)] assms(2) Let_def)
  have norender: "filter isRender
      (new_calls w (snd (ExportInventoryReport env w userID departmentID request))) = []"
    by (simp add: export_calls [OF assms(1)] assms(2) split: option.splits)
  have calls: "log_access_err env = None \<and> 0 < next_log_id (appDB w) \<longrightarrow>
          new_calls w (snd (GetInventoryReportData env w userID departmentID request)) =
            [CallLogAccess (newAccessLog env userID 1 request f t),
             CallGetInventoryReport f t departmentID,
             CallUpdateLogStatus (next_log_id (appDB w)) ''success'']
          \<and> new_calls w (snd (ExportInventoryReport env w userID departmentID request)) =
            [CallLogAccess (newAccessLog env userID 2 request f t),
             CallGetInventoryReport f t departmentID,
             CallUpdateLogStatus (next_log_id (appDB w)) ''success'']"
    by (simp add: view_calls [OF assms(1)] export_calls [OF assms(1)] assms(2) results)
  have status: "log_access_err env = None \<and> update_err env = None \<and> 0 < next_log_id (appDB w)
          \<and> audit_status w (next_log_id (appDB w)) = [] \<longrightarrow>
          audit_status (snd (GetInventoryReportData env w userID departmentID request))
            (next_log_id (appDB w)) = [''success'']
          \<and> audit_status (snd (ExportInventoryReport env w userID departmentID request))
            (next_log_id (appDB w)) = [''success'']"
    by (simp add: view_run [OF assms(1)] export_run [OF assms(1)] assms(2) Let_def
        audit_status_def appDB_updateLogStatus fst_operationRepo_LogAccess
        snd_operationRepo_LogAccess LogAccess_def UpdateLogStatus_def newAccessLog_def
        filter_map comp_def filter_empty_conv)
  show ?thesis using results norender calls status by blast
qed

section \<open>Audit writes are best effort\<close>


section \<open>The department argument\<close>

text \<open>
  Claim C10. For one state of the data source and one window, \<open>GetInventoryReport\<close>
  returns the same rows (or the same error) for any two department ids, and so do the
  two entry points built on it.
\<close>

theorem GetInventoryReport_ignores_departmentID:
  "GetInventoryReport erp fromDate toDate d1 = GetInventoryReport erp fromDate toDate d2
   \<and> fst (GetInventoryReportData env w userID d1 request) =
       fst (GetInventoryReportData env w userID d2 request)
   \<and> fst (ExportInventoryReport env w userID d1 request) =
       fst (ExportInventoryReport env w userID d2 request)"
proof -
  have repo: "\<And>fromDate toDate.
      GetInventoryReport erp fromDate toDate d1 = GetInventoryReport erp fromDate toDate d2"
    by (simp add: GetInventoryReport_def)
  have repo': "\<And>f t. GetInventoryReport (erpDB w) f t d1 = GetInventoryReport (erpDB w) f t d2"
    by (simp add: GetInventoryReport_def)
  have entry:
    "fst (GetInventoryReportData env w userID d1 request) =
       fst (GetInventoryReportData env w userID d2 request)
     \<and> fst (ExportInventoryReport env w userID d1 request) =
       fst (ExportInventoryReport env w userID d2 request)"
  proof (cases "window env request")
    case (Inl err)
    then show ?thesis by (simp add: window_Inl)
  next
    case (Inr p)
    obtain f t where "p = (f, t)" by (cases p)
    with Inr have W: "window env request = Inr (f, t)" by simp
    show ?thesis
      by (simp add: view_run [OF W] export_run [OF W] repo' [of f t] Let_def
          split: sum.splits prod.splits)
  qed
  show ?thesis using repo entry by blast
qed

section \<open>The example run\<close>

lemma example_window:
  "window exampleEnv (periodRequest ''7days'') =
     Inr (\<lparr>nanos = 63845539200000000000, loc = 0\<rparr>, \<lparr>nanos = 63846143999999999999, loc = 0\<rparr>)"
  by code_simp

lemma example_window_dates:
  "Date_of \<lparr>nanos = 63845539200000000000, loc = 0\<rparr> = (2024, 3, 9)
   \<and> Clock \<lparr>nanos = 63845539200000000000, loc = 0\<rparr> = (0, 0, 0)
   \<and> Date_of \<lparr>nanos = 63846143999999999999, loc = 0\<rparr> = (2024, 3, 15)
   \<and> Clock \<lparr>nanos = 63846143999999999999, loc = 0\<rparr> = (23, 59, 59)"
  by code_simp

lemma example_source:
  "GetInventoryReport (erpDB (exampleWorld [exampleRow]))
     \<lparr>nanos = 63845539200000000000, loc = 0\<rparr> \<lparr>nanos = 63846143999999999999, loc = 0\<rparr> 0
   = Inr [\<lparr>DocumentDate = ''14/03/2024'', SalesOrderNumber = ''230-0001'',
           CustomerName = ''ACME'', CurrencyType = ''1,000'', Currency = ''1,000'',
           DetailedOrderNumber = [], InvoiceNumber = [], Notes = []\<rparr>]"
  by code_simp

text \<open>
  In the example user 7 holds no role. The run of the view for user 7 writes the audit
  record, queries the data source and returns its row, without a permission query, and
  user 1 would get the same from a database without any role or grant.
\<close>

theorem pipeline_order_witness:
  "window exampleEnv (periodRequest ''7days'') =
     Inr (\<lparr>nanos = 63845539200000000000, loc = 0\<rparr>, \<lparr>nanos = 63846143999999999999, loc = 0\<rparr>)
   \<and> (\<exists>rest.
        new_calls (exampleWorld [exampleRow])
          (snd (GetInventoryReportData exampleEnv (exampleWorld [exampleRow]) 7 0
                 (periodRequest ''7days''))) =
        CallLogAccess
          (newAccessLog exampleEnv 7 1 (periodRequest ''7days'')
             \<lparr>nanos = 63845539200000000000, loc = 0\<rparr> \<lparr>nanos = 63846143999999999999, loc = 0\<rparr>)
        # CallGetInventoryReport \<lparr>nanos = 63845539200000000000, loc = 0\<rparr>
            \<lparr>nanos = 63846143999999999999, loc = 0\<rparr> 0
        # rest)
   \<and> filter isPermissionQuery
        (new_calls (exampleWorld [exampleRow])
          (snd (GetInventoryReportData exampleEnv (exampleWorld [exampleRow]) 7 0
                 (periodRequest ''7days'')))) = []
   \<and> fst (GetInventoryReportData exampleEnv (exampleWorld [exampleRow]) 7 0
            (periodRequest ''7days''))
     = Inr [\<lparr>DocumentDate = ''14/03/2024'', SalesOrderNumber = ''230-0001'',
             CustomerName = ''ACME'', CurrencyType = ''1,000'', Currency = ''1,000'',
             DetailedOrderNumber = [], InvoiceNumber = [], Notes = []\<rparr>]
   \<and> fst (GetInventoryReportData exampleEnv
            ((exampleWorld [exampleRow])
               \<lparr>appDB := exampleAppDB\<lparr>user_roles := [], role_operations := []\<rparr>\<rparr>)
            1 0 (periodRequest ''7days''))
     = fst (GetInventoryReportData exampleEnv (exampleWorld [exampleRow]) 7 0
              (periodRequest ''7days''))"
  using pipeline_order_without_permission_query
          [where env = exampleEnv and request = "periodRequest ''7days''"
             and w = "exampleWorld [exampleRow]" and userID = 7 and departmentID = 0
             and db = "exampleAppDB\<lparr>user_roles := [], role_operations := []\<rparr>" and u = 1]
  by (simp add: example_window example_source filter_empty_conv)

text \<open>
  The claim as stated fails: in the example database user 7 holds no role, so the
  permission check for the view operation answers false and the role-check middleware
  would answer 403; yet the view returns the row to user 7, and the export its file,
  and neither run contains a permission query.
\<close>

theorem pipeline_without_authorization_counterexample:
  "fst (CheckUserAccess (exampleWorld [exampleRow]) None None 7 ''inventory_view'')
     = (False, None)
   \<and> statusOf (fst (RoleCheckMiddleware None None ''inventory_view''
            (\<lambda>w. ReportHandler_GetInventoryReportData exampleEnv w 7 0
                    (periodRequest ''7days''))
            (exampleWorld [exampleRow]) 7))
     = 403
   \<and> statusOf (fst (ReportHandler_GetInventoryReportData exampleEnv
            (exampleWorld [exampleRow]) 7 0 (periodRequest ''7days'')))
     = 200
   \<and> fst (GetInventoryReportData exampleEnv (exampleWorld [exampleRow]) 7 0
            (periodRequest ''7days''))
     = Inr [\<lparr>DocumentDate = ''14/03/2024'', SalesOrderNumber = ''230-0001'',
             CustomerName = ''ACME'', CurrencyType = ''1,000'', Currency = ''1,000'',
             DetailedOrderNumber = [], InvoiceNumber = [], Notes = []\<rparr>]
   \<and> isl (fst (ExportInventoryReport exampleEnv (exampleWorld [exampleRow]) 7 0
                 (periodRequest ''7days''))) = False
   \<and> filter isPermissionQuery
        (calls (snd (GetInventoryReportData exampleEnv (exampleWorld [exampleRow]) 7 0
                      (periodRequest ''7days'')))) = []
   \<and> filter isPermissionQuery
        (calls (snd (ExportInventoryReport exampleEnv (exampleWorld [exampleRow]) 7 0
                      (periodRequest ''7days'')))) = []"
  by code_simp

lemma example_empty_source:
  "GetInventoryReport (erpDB (exampleWorld []))
     \<lparr>nanos = 63845539200000000000, loc = 0\<rparr> \<lparr>nanos = 63846143999999999999, loc = 0\<rparr> 0 = Inr []"
  by code_simp

theorem empty_result_witness:
  "window exampleEnv (periodRequest ''7days'') =
     Inr (\<lparr>nanos = 63845539200000000000, loc = 0\<rparr>, \<lparr>nanos = 63846143999999999999, loc = 0\<rparr>)
   \<and> GetInventoryReport (erpDB (exampleWorld []))
       \<lparr>nanos = 63845539200000000000, loc = 0\<rparr> \<lparr>nanos = 63846143999999999999, loc = 0\<rparr> 0 = Inr []
   \<and> fst (GetInventoryReportData exampleEnv (exampleWorld []) 1 0 (periodRequest ''7days''))
       = Inr []
   \<and> fst (ExportInventoryReport exampleEnv (exampleWorld []) 1 0 (periodRequest ''7days''))
       = Inl NoData
   \<and> audit_status
       (snd (GetInventoryReportData exampleEnv (exampleWorld []) 1 0 (periodRequest ''7days'')))
       1 = [''success'']
   \<and> audit_status
       (snd (ExportInventoryReport exampleEnv (exampleWorld []) 1 0 (periodRequest ''7days'')))
       1 = [''success'']"
proof -
  have side: "log_access_err exampleEnv = None" "update_err exampleEnv = None"
    "next_log_id (appDB (exampleWorld [])) = 1" "audit_status (exampleWorld []) 1 = []"
    by (simp_all add: exampleEnv_def exampleWorld_def exampleAppDB_def audit_status_def)
  show ?thesis
    using empty_result_view_and_export
            [OF example_window example_empty_source, where userID = 1] side
    by (simp add: example_window example_empty_source)
qed


section \<open>The permission check\<close>

lemma access_count_pos:
  "0 < access_count db userID operationID \<longleftrightarrow> hasGrant db userID operationID"
proof -
  have "0 < access_count db userID operationID \<longleftrightarrow>
        (\<exists>ur \<in> set (user_roles db).
           filter (\<lambda>ro. ur_role_id ur = RoleID ro \<and> ur_user_id ur = userID
                        \<and> roOperationID ro = operationID \<and> CanAccess ro)
             (role_operations db) \<noteq> [])"
    by (auto simp: access_count_def)
  also have "\<dots> \<longleftrightarrow> hasGrant db userID operationID"
    by (fastforce simp: hasGrant_def qualifies_def filter_empty_conv)
  finally show ?thesis .
qed

lemma hasGrant_RemoveOperations:
  assumes "\<forall>ur \<in> set (user_roles db). \<forall>ro \<in> set (role_operations db).
             qualifies userID operationID ur ro \<longrightarrow> RoleID ro = roleID"
  shows "\<not> hasGrant (snd (RemoveOperations db None roleID [operationID])) userID operationID"
  using assms by (auto simp: hasGrant_def RemoveOperations_def qualifies_def)

text \<open>
  Claim C2. For an operation code that resolves to an operation, and when neither
  statement fails in the driver, \<open>CheckUserAccess\<close> answers true exactly when some role
  assigned to the user has a grant to that operation id with a true flag. The check
  leaves the database as it was, whatever its outcome. When every qualifying grant is
  the one of a single role to the operation, the check answers false once
  \<open>RemoveOperations\<close> has removed that grant.
\<close>

theorem CheckUserAccess_iff_grant:
  assumes "FindByCode (appDB w) None operationCode = Inr operation"
  shows
    "fst (CheckUserAccess w None None userID operationCode) =
       (hasGrant (appDB w) userID (opID operation), None)
     \<and> appDB (snd (CheckUserAccess w err1 err2 userID operationCode)) = appDB w
     \<and> ((\<forall>ur \<in> set (user_roles (appDB w)). \<forall>ro \<in> set (role_operations (appDB w)).
            qualifies userID (opID operation) ur ro \<longrightarrow> RoleID ro = roleID) \<longrightarrow>
          fst (CheckUserAccess
                 (w\<lparr>appDB := snd (RemoveOperations (appDB w) None roleID [opID operation])\<rparr>)
                 None None userID operationCode) = (False, None))"
proof -
  have check: "fst (CheckUserAccess w None None userID operationCode) =
       (hasGrant (appDB w) userID (opID operation), None)"
    using assms
    by (simp add: CheckUserAccess_def operationRepo_FindByCode_def
        roleRepo_CheckUserOperationAccess_def CheckUserOperationAccess_def access_count_pos)
  have frame: "appDB (snd (CheckUserAccess w err1 err2 userID operationCode)) = appDB w"
    by (simp add: CheckUserAccess_def operationRepo_FindByCode_def
        roleRepo_CheckUserOperationAccess_def split: sum.splits)
  have removed:
    "(\<forall>ur \<in> set (user_roles (appDB w)). \<forall>ro \<in> set (role_operations (appDB w)).
            qualifies userID (opID operation) ur ro \<longrightarrow> RoleID ro = roleID) \<longrightarrow>
          fst (CheckUserAccess
                 (w\<lparr>appDB := snd (RemoveOperations (appDB w) None roleID [opID operation])\<rparr>)
                 None None userID operationCode) = (False, None)"
  proof
    assume only: "\<forall>ur \<in> set (user_roles (appDB w)). \<forall>ro \<in> set (role_operations (appDB w)).
            qualifies userID (opID operation) ur ro \<longrightarrow> RoleID ro = roleID"
    let ?db = "snd (RemoveOperations (appDB w) None roleID [opID operation])"
    have find: "FindByCode ?db None operationCode = Inr operation"
      using assms by (simp add: FindByCode_def RemoveOperations_def)
    have "\<not> hasGrant ?db userID (opID operation)"
      by (rule hasGrant_RemoveOperations [OF only])
    then show "fst (CheckUserAccess (w\<lparr>appDB := ?db\<rparr>) None None userID operationCode)
                = (False, None)"
      using find
      by (simp add: CheckUserAccess_def operationRepo_FindByCode_def
          roleRepo_CheckUserOperationAccess_def CheckUserOperationAccess_def access_count_pos)
  qed
  show ?thesis using check frame removed by blast
qed

theorem CheckUserAccess_iff_grant_witness:
  "FindByCode (appDB (exampleWorld [])) None ''inventory_view'' =
     Inr \<lparr>opID = 1, opName = ''View inventory report'', opCode = ''inventory_view'',
          opDescription = []\<rparr>
   \<and> fst (CheckUserAccess (exampleWorld []) None None 1 ''inventory_view'') = (True, None)
   \<and> fst (CheckUserAccess (exampleWorld []) None None 7 ''inventory_view'') = (False, None)
   \<and> fst (CheckUserAccess
            ((exampleWorld [])
               \<lparr>appDB := snd (RemoveOperations (appDB (exampleWorld [])) None 10 [1])\<rparr>)
            None None 1 ''inventory_view'') = (False, None)"
proof -
  let ?op = "\<lparr>opID = 1, opName = ''View inventory report'', opCode = ''inventory_view'',
          opDescription = []\<rparr>"
  have F: "FindByCode (appDB (exampleWorld [])) None ''inventory_view'' = Inr ?op"
    by (simp add: FindByCode_def exampleWorld_def exampleAppDB_def)
  have G1: "hasGrant (appDB (exampleWorld [])) 1 1"
    by (simp add: hasGrant_def qualifies_def exampleWorld_def exampleAppDB_def)
  have G7: "\<not> hasGrant (appDB (exampleWorld [])) 7 1"
    by (simp add: hasGrant_def qualifies_def exampleWorld_def exampleAppDB_def)
  have only: "\<forall>ur \<in> set (user_roles (appDB (exampleWorld []))).
             \<forall>ro \<in> set (role_operations (appDB (exampleWorld []))).
               qualifies 1 (opID ?op) ur ro \<longrightarrow> RoleID ro = 10"
    by (simp add: qualifies_def exampleWorld_def exampleAppDB_def)
  show ?thesis
    using CheckUserAccess_iff_grant [OF F, where userID = 1 and roleID = 10]
          CheckUserAccess_iff_grant [OF F, where userID = 7 and roleID = 10]
          F G1 G7 only
    by simp
qed

section \<open>Cell references\<close>

lemma digit_eq_iff: "digit a = digit b \<longleftrightarrow> a mod 10 = b mod 10"
proof -
  have "(48 + a mod 10) mod 256 = 48 + a mod 10" "(48 + b mod 10) mod 256 = 48 + b mod 10"
    by simp_all
  then show ?thesis by (auto simp: digit_def)
qed

lemma itoa_nat_small: "n < 10 \<Longrightarrow> itoa_nat n = [digit n]"
  by (subst itoa_nat.simps) simp

lemma itoa_nat_large: "10 \<le> n \<Longrightarrow> itoa_nat n = itoa_nat (n div 10) @ [digit n]"
  by (subst itoa_nat.simps) simp

lemma itoa_nat_not_Nil [simp]: "itoa_nat n \<noteq> []"
  by (subst itoa_nat.simps) simp

lemma length_itoa_nat_large: "10 \<le> n \<Longrightarrow> 2 \<le> length (itoa_nat n)"
proof -
  assume "10 \<le> n"
  then have "itoa_nat n = itoa_nat (n div 10) @ [digit n]" by (rule itoa_nat_large)
  moreover have "1 \<le> length (itoa_nat (n div 10))"
    by (cases "itoa_nat (n div 10)") simp_all
  ultimately show ?thesis by simp
qed

lemma itoa_nat_inj: "itoa_nat a = itoa_nat b \<Longrightarrow> a = b"
proof (induction a arbitrary: b rule: itoa_nat.induct)
  case (1 a)
  show ?case
  proof (cases "a < 10")
    case True
    then have la: "length (itoa_nat a) = 1" by (simp add: itoa_nat_small)
    have "b < 10"
    proof (rule ccontr)
      assume "\<not> b < 10"
      then have "2 \<le> length (itoa_nat b)" by (simp add: length_itoa_nat_large)
      with la "1.prems" show False by simp
    qed
    with True "1.prems" show ?thesis
      by (simp add: itoa_nat_small digit_eq_iff)
  next
    case False
    then have a: "10 \<le> a" by simp
    then have la: "2 \<le> length (itoa_nat a)" by (rule length_itoa_nat_large)
    have b: "10 \<le> b"
    proof (rule ccontr)
      assume "\<not> 10 \<le> b"
      then have "length (itoa_nat b) = 1" by (simp add: itoa_nat_small)
      with la "1.prems" show False by simp
    qed
    from "1.prems" have eq:
      "itoa_nat (a div 10) @ [digit a] = itoa_nat (b div 10) @ [digit b]"
      by (simp add: itoa_nat_large a b)
    then have "itoa_nat (a div 10) = itoa_nat (b div 10)" and d: "digit a = digit b"
      by simp_all
    then have "a div 10 = b div 10" using "1.IH" False by simp
    moreover have "a mod 10 = b mod 10" using d by (simp add: digit_eq_iff)
    ultimately show ?thesis by (metis div_mult_mod_eq)
  qed
qed

lemma EncodeRune_letter: "j < 26 \<Longrightarrow> EncodeRune (65 + j) = [char_of (65 + j)]"
  by (simp add: EncodeRune_def)

lemma columnName_letter: "j < 26 \<Longrightarrow> columnName j = [char_of (65 + j)]"
  by (subst columnName.simps) simp

lemma cellPos_letter: "j < 26 \<Longrightarrow> cellPos j row = char_of (65 + j) # itoa_nat row"
  by (simp add: cellPos_def EncodeRune_letter)

lemma letter_inj:
  "(j::nat) < 26 \<Longrightarrow> (k::nat) < 26 \<Longrightarrow> char_of (65 + j) = (char_of (65 + k) :: char) \<Longrightarrow> j = k"
  by simp

lemma itoa_nat_3: "itoa_nat 3 = ''3''"
  by code_simp

lemma header_ref: "EncodeRune (65 + i) @ ''3'' = cellPos i 3"
  by (simp add: cellPos_def itoa_nat_3)

lemma itoa_nat_hd_digit: "\<exists>(d::nat) rest. d < 10 \<and> itoa_nat n = char_of (48 + d) # rest"
proof (induction n rule: itoa_nat.induct)
  case (1 n)
  show ?case
  proof (cases "n < 10")
    case True
    then show ?thesis
      by (intro exI [of _ "n mod 10"] exI [of _ "[]"]) (simp add: itoa_nat_small digit_def)
  next
    case False
    with "1.IH" obtain d :: nat and rest where
      "d < 10" "itoa_nat (n div 10) = char_of (48 + d) # rest"
      by auto
    with False show ?thesis by (auto simp: itoa_nat_large)
  qed
qed

text \<open>How the library reads the references the exporter builds for the columns A to Z.\<close>

lemma of_char_int: "(of_char c :: int) = int (of_char c)"
  by (simp add: of_nat_of_char)

lemma of_char_digit: "(of_char (digit n) :: int) = 48 + int (n mod 10)"
proof -
  have "(of_char (digit n) :: nat) = (48 + n mod 10) mod 256"
    by (simp add: digit_def)
  also have "\<dots> = 48 + n mod 10" by simp
  finally have "(of_char (digit n) :: nat) = 48 + n mod 10" .
  then show ?thesis unfolding of_char_int [of "digit n"] by simp
qed

lemma of_char_letter:
  "(j::nat) < 26 \<Longrightarrow> (of_char (char_of (65 + j) :: char) :: int) = 65 + int j"
proof -
  assume j: "j < 26"
  have "(of_char (char_of (65 + j) :: char) :: nat) = (65 + j) mod 256" by simp
  also have "\<dots> = 65 + j" using j by simp
  finally have "(of_char (char_of (65 + j) :: char) :: nat) = 65 + j" .
  then show ?thesis unfolding of_char_int [of "char_of (65 + j)"] by simp
qed

lemma alpha_letter: "(j::nat) < 26 \<Longrightarrow> alpha (char_of (65 + j))"
  by (simp add: alpha_def Let_def of_char_letter)

lemma letter_not_dollar: "(j::nat) < 26 \<Longrightarrow> (char_of (65 + j) :: char) \<noteq> CHR ''$''"
proof
  assume j: "j < 26" and eq: "(char_of (65 + j) :: char) = CHR ''$''"
  have "(of_char (char_of (65 + j) :: char) :: int) = of_char CHR ''$''"
    unfolding eq by (rule refl)
  then show False using j by (simp add: of_char_letter)
qed

lemma not_alpha_digit: "\<not> alpha (digit n)"
  by (simp add: alpha_def of_char_digit) linarith

lemma not_alpha_itoa_nat: "c \<in> set (itoa_nat n) \<Longrightarrow> \<not> alpha c"
proof (induction n rule: itoa_nat.induct)
  case (1 n)
  show ?case
  proof (cases "n < 10")
    case True
    with "1.prems" show ?thesis by (simp add: itoa_nat_small not_alpha_digit)
  next
    case False
    with "1.prems" "1.IH" show ?thesis by (auto simp: itoa_nat_large not_alpha_digit)
  qed
qed

lemma LastIndexFunc_none:
  "(\<And>c. c \<in> set cs \<Longrightarrow> \<not> p c) \<Longrightarrow> LastIndexFunc p i found cs = found"
  by (induction cs arbitrary: i found) simp_all

lemma parseDigits_append:
  "parseDigits acc (xs @ ys) =
     (case parseDigits acc xs of None \<Rightarrow> None | Some a \<Rightarrow> parseDigits a ys)"
  by (induction xs arbitrary: acc) (simp_all add: Let_def)

lemma parseDigits_digit: "parseDigits acc [digit n] = Some (acc * 10 + int (n mod 10))"
proof -
  have "n mod 10 < 10" by simp
  then show ?thesis by (simp add: Let_def of_char_digit)
qed

lemma parseDigits_itoa_nat: "parseDigits 0 (itoa_nat n) = Some (int n)"
proof (induction n rule: itoa_nat.induct)
  case (1 n)
  show ?case
  proof (cases "n < 10")
    case True
    show ?thesis
      unfolding itoa_nat_small [OF True] parseDigits_digit using True by simp
  next
    case False
    then have ge: "10 \<le> n" by simp
    have IH: "parseDigits 0 (itoa_nat (n div 10)) = Some (int (n div 10))"
      using False by (rule "1.IH")
    have "int (n div 10) * 10 + int (n mod 10) = int n"
      by (simp add: zdiv_int zmod_int)
    then show ?thesis
      unfolding itoa_nat_large [OF ge] parseDigits_append IH option.case parseDigits_digit
      by simp
  qed
qed

lemma Atoi_itoa_nat:
  "Atoi (itoa_nat n) = (if int n \<le> 9223372036854775807 then Some (int n) else None)"
proof -
  obtain d :: nat and rest where d: "d < 10" and c: "itoa_nat n = char_of (48 + d) # rest"
    using itoa_nat_hd_digit by blast
  have "(of_char (char_of (48 + d) :: char) :: nat) = (48 + d) mod 256" by simp
  then have v: "(of_char (char_of (48 + d) :: char) :: nat) = 48 + d" using d by simp
  have "(char_of (48 + d) :: char) \<noteq> CHR ''-''"
  proof
    assume "(char_of (48 + d) :: char) = CHR ''-''"
    then have "(of_char (char_of (48 + d) :: char) :: nat) = of_char CHR ''-''" by simp
    with v show False by simp
  qed
  moreover have "(char_of (48 + d) :: char) \<noteq> CHR ''+''"
  proof
    assume "(char_of (48 + d) :: char) = CHR ''+''"
    then have "(of_char (char_of (48 + d) :: char) :: nat) = of_char CHR ''+''" by simp
    with v show False by simp
  qed
  ultimately show ?thesis
    using parseDigits_itoa_nat [of n] unfolding Atoi_def c by (simp add: Let_def)
qed

lemma SplitCellName_cellPos:
  assumes "j < 26"
  shows "SplitCellName (cellPos j row) =
     (if 0 < row \<and> int row \<le> 9223372036854775807
      then Inr ([char_of (65 + j)], int row)
      else Inl (InvalidCellName (cellPos j row)))"
proof -
  let ?c = "char_of (65 + j) :: char"
  have cell: "cellPos j row = ?c # itoa_nat row" using assms by (rule cellPos_letter)
  have last: "LastIndexFunc alpha 0 None (?c # itoa_nat row) = Some 0"
    using alpha_letter [OF assms] LastIndexFunc_none [of "itoa_nat row" alpha 1 "Some 0"]
      not_alpha_itoa_nat [of _ row]
    by simp
  show ?thesis
    unfolding cell SplitCellName_def
    using alpha_letter [OF assms] letter_not_dollar [OF assms] last
    by (simp add: Let_def Atoi_itoa_nat)
qed

lemma ColumnNameToNumber_letter:
  "j < 26 \<Longrightarrow> ColumnNameToNumber [char_of (65 + j)] = Inr (j + 1)"
  by (simp add: ColumnNameToNumber_def Let_def of_char_letter MaxColumns_def)

lemma coords_cellPos:
  assumes "j < 26"
  shows "CellNameToCoordinates (cellPos j row) =
     (if 0 < row \<and> row \<le> 1048576 then Inr (j + 1, row)
      else if 0 < row \<and> int row \<le> 9223372036854775807 then Inl ErrMaxRows
      else Inl (InvalidCellName (cellPos j row)))"
  unfolding CellNameToCoordinates_def SplitCellName_cellPos [OF assms]
  by (simp add: TotalRows_def ColumnNameToNumber_letter [OF assms])

lemma coords_cellPos_Inr:
  "j < 26 \<Longrightarrow> CellNameToCoordinates (cellPos j row) = Inr p \<Longrightarrow> p = (j + 1, row)"
  by (simp add: coords_cellPos split: if_splits)

lemma coords_A1: "CellNameToCoordinates ''A1'' = Inr (1, 1)"
  by code_simp

lemma readCell_letter: "j < 26 \<Longrightarrow> readCell f j row = cells f (cellPos j row)"
  by (simp add: readCell_def columnName_letter cellPos_letter)

lemma cells_cellPos:
  "j < 26 \<Longrightarrow> 0 < row \<Longrightarrow> row \<le> 1048576 \<Longrightarrow> cells f (cellPos j row) = sheet f (j + 1, row)"
  by (simp add: cells_def coords_cellPos)

section \<open>What the exporter writes\<close>

lemma sheet_SetCellValue:
  "sheet (fst (SetCellValue f cell v)) p =
     (if CellNameToCoordinates cell = Inr p then Some v else sheet f p)"
  by (auto simp: SetCellValue_def split: sum.splits)

lemma writeRow_other:
  "(\<forall>k < length hs. CellNameToCoordinates (cellPos (j0 + k) row) \<noteq> Inr p) \<Longrightarrow>
     sheet (writeRow item row j0 hs f) p = sheet f p"
proof (induction hs arbitrary: j0 f)
  case Nil
  show ?case by simp
next
  case (Cons h hs)
  have "\<forall>k < length hs. CellNameToCoordinates (cellPos (j0 + 1 + k) row) \<noteq> Inr p"
  proof (intro allI impI)
    fix k assume "k < length hs"
    then show "CellNameToCoordinates (cellPos (j0 + 1 + k) row) \<noteq> Inr p"
      using Cons.prems [rule_format, of "Suc k"] by simp
  qed
  then have "sheet (writeRow item row (j0 + 1) hs
                      (fst (SetCellValue f (cellPos j0 row) (index_map item h)))) p
             = sheet (fst (SetCellValue f (cellPos j0 row) (index_map item h))) p"
    by (rule Cons.IH)
  moreover have "CellNameToCoordinates (cellPos j0 row) \<noteq> Inr p"
    using Cons.prems [rule_format, of 0] by simp
  ultimately show ?case by (simp add: sheet_SetCellValue)
qed

lemma writeRow_written:
  "k < length hs \<Longrightarrow> j0 + length hs \<le> 26 \<Longrightarrow> 0 < row \<Longrightarrow> row \<le> 1048576 \<Longrightarrow>
     sheet (writeRow item row j0 hs f) (j0 + k + 1, row) = Some (index_map item (hs ! k))"
proof (induction hs arbitrary: j0 f k)
  case Nil
  then show ?case by simp
next
  case (Cons h hs)
  show ?case
  proof (cases k)
    case 0
    have j0: "j0 < 26" using Cons.prems(2) by simp
    have "\<forall>k' < length hs.
            CellNameToCoordinates (cellPos (j0 + 1 + k') row) \<noteq> Inr (j0 + 1, row)"
    proof (intro allI impI notI)
      fix k' assume "k' < length hs"
        and eq: "CellNameToCoordinates (cellPos (j0 + 1 + k') row) = Inr (j0 + 1, row)"
      then have "j0 + 1 + k' < 26" using Cons.prems(2) by simp
      from coords_cellPos_Inr [OF this eq] show False by simp
    qed
    then have "sheet (writeRow item row (j0 + 1) hs
                        (fst (SetCellValue f (cellPos j0 row) (index_map item h))))
                 (j0 + 1, row)
               = sheet (fst (SetCellValue f (cellPos j0 row) (index_map item h))) (j0 + 1, row)"
      by (rule writeRow_other)
    moreover have "CellNameToCoordinates (cellPos j0 row) = Inr (j0 + 1, row)"
      using j0 Cons.prems(3,4) by (simp add: coords_cellPos)
    ultimately show ?thesis using 0 by (simp add: sheet_SetCellValue)
  next
    case (Suc k')
    then have "k' < length hs" "j0 + 1 + length hs \<le> 26" using Cons.prems by simp_all
    from Cons.IH [OF this Cons.prems(3,4)] Suc show ?thesis by simp
  qed
qed

lemma writeData_other:
  "(\<forall>i < length data. \<forall>k < length hs.
      CellNameToCoordinates (cellPos k (i0 + i + 4)) \<noteq> Inr p) \<Longrightarrow>
     sheet (writeData i0 data hs f) p = sheet f p"
proof (induction data arbitrary: i0 f)
  case Nil
  show ?case by simp
next
  case (Cons item data)
  have "\<forall>i < length data. \<forall>k < length hs.
          CellNameToCoordinates (cellPos k (i0 + 1 + i + 4)) \<noteq> Inr p"
  proof (intro allI impI)
    fix i k assume "i < length data" "k < length hs"
    then show "CellNameToCoordinates (cellPos k (i0 + 1 + i + 4)) \<noteq> Inr p"
      using Cons.prems [rule_format, of "Suc i" k] by simp
  qed
  then have "sheet (writeData (i0 + 1) data hs (writeRow item (i0 + 4) 0 hs f)) p
             = sheet (writeRow item (i0 + 4) 0 hs f) p"
    by (rule Cons.IH)
  moreover have "sheet (writeRow item (i0 + 4) 0 hs f) p = sheet f p"
  proof (rule writeRow_other, intro allI impI)
    fix k assume "k < length hs"
    then show "CellNameToCoordinates (cellPos (0 + k) (i0 + 4)) \<noteq> Inr p"
      using Cons.prems [rule_format, of 0 k] by simp
  qed
  ultimately show ?case by simp
qed

lemma writeData_written:
  "i < length data \<Longrightarrow> k < length hs \<Longrightarrow> length hs \<le> 26 \<Longrightarrow> i0 + i + 4 \<le> 1048576 \<Longrightarrow>
     sheet (writeData i0 data hs f) (k + 1, i0 + i + 4) = Some (index_map (data ! i) (hs ! k))"
proof (induction data arbitrary: i0 f i)
  case Nil
  then show ?case by simp
next
  case (Cons item data)
  show ?case
  proof (cases i)
    case 0
    have "\<forall>i' < length data. \<forall>k' < length hs.
            CellNameToCoordinates (cellPos k' (i0 + 1 + i' + 4)) \<noteq> Inr (k + 1, i0 + 4)"
    proof (intro allI impI notI)
      fix i' k' assume "k' < length hs"
        and eq: "CellNameToCoordinates (cellPos k' (i0 + 1 + i' + 4)) = Inr (k + 1, i0 + 4)"
      then have "k' < 26" using Cons.prems by simp
      from coords_cellPos_Inr [OF this eq] show False by simp
    qed
    then have "sheet (writeData (i0 + 1) data hs (writeRow item (i0 + 4) 0 hs f)) (k + 1, i0 + 4)
               = sheet (writeRow item (i0 + 4) 0 hs f) (k + 1, i0 + 4)"
      by (rule writeData_other)
    moreover have "sheet (writeRow item (i0 + 4) 0 hs f) (0 + k + 1, i0 + 4)
                   = Some (index_map item (hs ! k))"
      using Cons.prems 0 by (intro writeRow_written) simp_all
    ultimately show ?thesis using 0 by simp
  next
    case (Suc i')
    then have "i' < length data" "i0 + 1 + i' + 4 \<le> 1048576" using Cons.prems by simp_all
    from Cons.IH [OF this(1) Cons.prems(2,3) this(2)] Suc show ?thesis by simp
  qed
qed

lemma writeHeaders_other:
  "(\<forall>k < length hs. CellNameToCoordinates (cellPos (i0 + k) 3) \<noteq> Inr p) \<Longrightarrow>
     sheet (writeHeaders tr i0 hs f) p = sheet f p"
proof (induction hs arbitrary: i0 f)
  case Nil
  show ?case by simp
next
  case (Cons h hs)
  have "\<forall>k < length hs. CellNameToCoordinates (cellPos (i0 + 1 + k) 3) \<noteq> Inr p"
  proof (intro allI impI)
    fix k assume "k < length hs"
    then show "CellNameToCoordinates (cellPos (i0 + 1 + k) 3) \<noteq> Inr p"
      using Cons.prems [rule_format, of "Suc k"] by simp
  qed
  then have "sheet (writeHeaders tr (i0 + 1) hs
                      (fst (SetCellValue f (cellPos i0 3) (StringValue (TranslateKey tr h))))) p
             = sheet (fst (SetCellValue f (cellPos i0 3) (StringValue (TranslateKey tr h)))) p"
    by (rule Cons.IH)
  moreover have "CellNameToCoordinates (cellPos i0 3) \<noteq> Inr p"
    using Cons.prems [rule_format, of 0] by simp
  ultimately show ?case by (simp add: sheet_SetCellValue header_ref)
qed

lemma writeHeaders_written:
  "k < length hs \<Longrightarrow> i0 + length hs \<le> 26 \<Longrightarrow>
     sheet (writeHeaders tr i0 hs f) (i0 + k + 1, 3)
       = Some (StringValue (TranslateKey tr (hs ! k)))"
proof (induction hs arbitrary: i0 f k)
  case Nil
  then show ?case by simp
next
  case (Cons h hs)
  show ?case
  proof (cases k)
    case 0
    have i0: "i0 < 26" using Cons.prems(2) by simp
    have "\<forall>k' < length hs.
            CellNameToCoordinates (cellPos (i0 + 1 + k') 3) \<noteq> Inr (i0 + 1, 3)"
    proof (intro allI impI notI)
      fix k' assume "k' < length hs"
        and eq: "CellNameToCoordinates (cellPos (i0 + 1 + k') 3) = Inr (i0 + 1, 3)"
      then have "i0 + 1 + k' < 26" using Cons.prems(2) by simp
      from coords_cellPos_Inr [OF this eq] show False by simp
    qed
    then have "sheet (writeHeaders tr (i0 + 1) hs
                        (fst (SetCellValue f (cellPos i0 3) (StringValue (TranslateKey tr h)))))
                 (i0 + 1, 3)
               = sheet (fst (SetCellValue f (cellPos i0 3) (StringValue (TranslateKey tr h))))
                   (i0 + 1, 3)"
      by (rule writeHeaders_other)
    moreover have "CellNameToCoordinates (cellPos i0 3) = Inr (i0 + 1, 3)"
      using i0 by (simp add: coords_cellPos)
    ultimately show ?thesis using 0 by (simp add: sheet_SetCellValue header_ref)
  next
    case (Suc k')
    then have "k' < length hs" "i0 + 1 + length hs \<le> 26" using Cons.prems by simp_all
    from Cons.IH [OF this] Suc show ?thesis by (simp add: header_ref)
  qed
qed

text \<open>The workbook of a successful export.\<close>

lemma ExportToExcel_Inr:
  "ExportToExcel env data headers title = Inr (filename, f) \<Longrightarrow>
     f = writeData 0 data headers
           (writeHeaders (enToVnTranslate env) 0 headers
              (fst (SetCellValue NewFile ''A1'' (StringValue title))))"
  by (simp add: ExportToExcel_def Let_def split: if_splits)

lemma exported_data_cell:
  assumes "ExportToExcel env data headers title = Inr (filename, f)"
    and "length headers \<le> 26" "i < length data" "j < length headers" "i + 4 \<le> 1048576"
  shows "readCell f j (i + 4) = Some (index_map (data ! i) (headers ! j))"
proof -
  have j: "j < 26" using assms by simp
  have "0 + i + 4 \<le> 1048576" using assms(5) by simp
  from writeData_written [OF assms(3,4,2) this]
  have "sheet f (j + 1, i + 4) = Some (index_map (data ! i) (headers ! j))"
    unfolding ExportToExcel_Inr [OF assms(1)] by simp
  then show ?thesis
    using j assms(5) by (simp add: readCell_letter cells_cellPos)
qed

lemma exported_header_cell:
  assumes "ExportToExcel env data headers title = Inr (filename, f)"
    and "length headers \<le> 26" "j < length headers"
  shows "readCell f j 3 = Some (StringValue (TranslateKey (enToVnTranslate env) (headers ! j)))"
proof -
  have j: "j < 26" using assms by simp
  let ?h = "writeHeaders (enToVnTranslate env) 0 headers
              (fst (SetCellValue NewFile ''A1'' (StringValue title)))"
  have "\<forall>i < length data. \<forall>k < length headers.
          CellNameToCoordinates (cellPos k (0 + i + 4)) \<noteq> Inr (j + 1, 3)"
  proof (intro allI impI notI)
    fix i k assume "k < length headers"
      and eq: "CellNameToCoordinates (cellPos k (0 + i + 4)) = Inr (j + 1, 3)"
    then have "k < 26" using assms(2) by simp
    from coords_cellPos_Inr [OF this eq] show False by simp
  qed
  then have "sheet (writeData 0 data headers ?h) (j + 1, 3) = sheet ?h (j + 1, 3)"
    by (rule writeData_other)
  moreover have "sheet ?h (0 + j + 1, 3)
                 = Some (StringValue (TranslateKey (enToVnTranslate env) (headers ! j)))"
    using assms by (intro writeHeaders_written) simp_all
  ultimately have "sheet f (j + 1, 3)
                 = Some (StringValue (TranslateKey (enToVnTranslate env) (headers ! j)))"
    unfolding ExportToExcel_Inr [OF assms(1)] by simp
  then show ?thesis
    using j by (simp add: readCell_letter cells_cellPos)
qed

lemma exported_title_cell:
  assumes "ExportToExcel env data headers title = Inr (filename, f)"
    and "length headers \<le> 26"
  shows "cells f ''A1'' = Some (StringValue title)"
proof -
  let ?t = "fst (SetCellValue NewFile ''A1'' (StringValue title))"
  let ?h = "writeHeaders (enToVnTranslate env) 0 headers ?t"
  have "\<forall>i < length data. \<forall>k < length headers.
          CellNameToCoordinates (cellPos k (0 + i + 4)) \<noteq> Inr (1, 1)"
  proof (intro allI impI notI)
    fix i k assume "k < length headers"
      and eq: "CellNameToCoordinates (cellPos k (0 + i + 4)) = Inr (1, 1)"
    then have "k < 26" using assms(2) by simp
    from coords_cellPos_Inr [OF this eq] show False by simp
  qed
  then have d: "sheet (writeData 0 data headers ?h) (1, 1) = sheet ?h (1, 1)"
    by (rule writeData_other)
  have "\<forall>k < length headers. CellNameToCoordinates (cellPos (0 + k) 3) \<noteq> Inr (1, 1)"
  proof (intro allI impI notI)
    fix k assume "k < length headers"
      and eq: "CellNameToCoordinates (cellPos (0 + k) 3) = Inr (1, 1)"
    then have "0 + k < 26" using assms(2) by simp
    from coords_cellPos_Inr [OF this eq] show False by simp
  qed
  then have h: "sheet ?h (1, 1) = sheet ?t (1, 1)"
    by (rule writeHeaders_other)
  have t: "sheet ?t (1, 1) = Some (StringValue title)"
    by (simp add: sheet_SetCellValue coords_A1)
  have "sheet f (1, 1) = Some (StringValue title)"
    unfolding ExportToExcel_Inr [OF assms(1)] d h t ..
  then show ?thesis by (simp add: cells_def coords_A1)
qed

lemma exported_nothing_else:
  assumes "ExportToExcel env data headers title = Inr (filename, f)"
    and "length headers \<le> 26" "4 \<le> r" "length headers \<le> j \<or> length data + 4 \<le> r"
  shows "sheet f (j + 1, r) = None"
proof -
  let ?t = "fst (SetCellValue NewFile ''A1'' (StringValue title))"
  let ?h = "writeHeaders (enToVnTranslate env) 0 headers ?t"
  have "\<forall>i < length data. \<forall>k < length headers.
          CellNameToCoordinates (cellPos k (0 + i + 4)) \<noteq> Inr (j + 1, r)"
  proof (intro allI impI notI)
    fix i k assume ik: "i < length data" "k < length headers"
      and eq: "CellNameToCoordinates (cellPos k (0 + i + 4)) = Inr (j + 1, r)"
    then have "k < 26" using assms(2) by simp
    from coords_cellPos_Inr [OF this eq] have "j = k" "r = i + 4" by simp_all
    with ik assms(4) show False by simp
  qed
  then have d: "sheet (writeData 0 data headers ?h) (j + 1, r) = sheet ?h (j + 1, r)"
    by (rule writeData_other)
  have "\<forall>k < length headers. CellNameToCoordinates (cellPos (0 + k) 3) \<noteq> Inr (j + 1, r)"
  proof (intro allI impI notI)
    fix k assume "k < length headers"
      and eq: "CellNameToCoordinates (cellPos (0 + k) 3) = Inr (j + 1, r)"
    then have "0 + k < 26" using assms(2) by simp
    from coords_cellPos_Inr [OF this eq] have "r = 3" by simp
    with assms(3) show False by simp
  qed
  then have h: "sheet ?h (j + 1, r) = sheet ?t (j + 1, r)"
    by (rule writeHeaders_other)
  have "(j + 1, r) \<noteq> (1, 1)" using assms(3) by simp
  then have t: "sheet ?t (j + 1, r) = None"
    by (auto simp: sheet_SetCellValue coords_A1 NewFile_def)
  show ?thesis
    unfolding ExportToExcel_Inr [OF assms(1)] d h t ..
qed

section \<open>The exported workbook\<close>

text \<open>
  With at most 26 headers the workbook of a successful export holds, for every row \<open>i\<close>
  within the 1048576 rows of a sheet and every column \<open>j\<close>, the value of field
  \<open>headers[j]\<close> of row \<open>i\<close> in the cell of column \<open>j\<close> and sheet row \<open>i + 4\<close> (\<open>nil\<close>, an
  empty cell, when the row lacks the field), nothing else from sheet row 4 on, the
  translated header in sheet row 3, and the title in A1.
\<close>

lemma ExportToExcel_columns_A_to_Z:
  assumes "ExportToExcel env data headers title = Inr (filename, f)"
    and "length headers \<le> 26"
  shows "\<forall>i < length data. \<forall>j < length headers.
           i + 4 \<le> 1048576 \<longrightarrow>
           readCell f j (i + 4) = Some (index_map (data ! i) (headers ! j))"
    and "\<forall>j < length headers.
           readCell f j 3 = Some (StringValue (TranslateKey (enToVnTranslate env) (headers ! j)))"
    and "\<forall>j r. 4 \<le> r \<and> (length headers \<le> j \<or> length data + 4 \<le> r) \<longrightarrow>
           sheet f (j + 1, r) = None"
    and "cells f ''A1'' = Some (StringValue title)"
proof -
  show "\<forall>i < length data. \<forall>j < length headers.
           i + 4 \<le> 1048576 \<longrightarrow>
           readCell f j (i + 4) = Some (index_map (data ! i) (headers ! j))"
    using exported_data_cell [OF assms] by blast
  show "\<forall>j < length headers.
           readCell f j 3 = Some (StringValue (TranslateKey (enToVnTranslate env) (headers ! j)))"
    using exported_header_cell [OF assms] by blast
  show "\<forall>j r. 4 \<le> r \<and> (length headers \<le> j \<or> length data + 4 \<le> r) \<longrightarrow>
           sheet f (j + 1, r) = None"
    using exported_nothing_else [OF assms] by blast
  show "cells f ''A1'' = Some (StringValue title)"
    by (rule exported_title_cell [OF assms])
qed

lemma TranslateKey_cases:
  "enToVnTranslate env key = None \<Longrightarrow> TranslateKey (enToVnTranslate env) key = key"
  "enToVnTranslate env key = Some label \<Longrightarrow> TranslateKey (enToVnTranslate env) key = label"
  by (simp_all add: TranslateKey_def)

lemma ExportToExcel_succeeds:
  "\<not> render_fails env TitleStyleError \<Longrightarrow> \<not> render_fails env HeaderStyleError \<Longrightarrow>
   \<not> render_fails env DataStyleError \<Longrightarrow> \<not> render_fails env WriteBufferError \<Longrightarrow>
     \<exists>filename f. ExportToExcel env data headers title = Inr (filename, f)"
  by (simp add: ExportToExcel_def Let_def)

text \<open>
  The 27th header leaves no trace: its reference starts with the character after \<open>Z\<close>,
  every write to it is refused, and the workbook is the one of the first 26 headers.
\<close>

lemma cellPos_26_refused:
  "CellNameToCoordinates (cellPos 26 row) = Inl (InvalidCellName (cellPos 26 row))"
proof -
  have c: "cellPos 26 row = CHR ''['' # itoa_nat row"
  proof -
    have "EncodeRune (65 + 26) = [CHR ''['']" by code_simp
    then show ?thesis by (simp add: cellPos_def)
  qed
  have "\<not> alpha CHR ''[''" by code_simp
  then show ?thesis
    unfolding c by (simp add: CellNameToCoordinates_def SplitCellName_def)
qed

lemma SetCellValue_refused:
  "CellNameToCoordinates cell = Inl e \<Longrightarrow> SetCellValue f cell v = (f, Some e)"
  by (simp add: SetCellValue_def)

lemma writeRow_append:
  "writeRow item row j (hs @ [h]) f =
     fst (SetCellValue (writeRow item row j hs f) (cellPos (j + length hs) row)
            (index_map item h))"
  by (induction hs arbitrary: j f) simp_all

lemma writeHeaders_append:
  "writeHeaders tr i (hs @ [h]) f =
     fst (SetCellValue (writeHeaders tr i hs f) (cellPos (i + length hs) 3)
            (StringValue (TranslateKey tr h)))"
  by (induction hs arbitrary: i f) (simp_all add: header_ref)

lemma writeData_27_headers:
  "length hs = 26 \<Longrightarrow> writeData i data (hs @ [h]) f = writeData i data hs f"
  by (induction data arbitrary: i f)
    (simp_all add: writeRow_append SetCellValue_refused [OF cellPos_26_refused])

lemma ExportToExcel_27_headers:
  assumes "length headers = 26"
  shows "ExportToExcel env data (headers @ [h]) title = ExportToExcel env data headers title"
proof -
  have "writeHeaders (enToVnTranslate env) 0 (headers @ [h]) f
          = writeHeaders (enToVnTranslate env) 0 headers f" for f
    using assms by (simp add: writeHeaders_append SetCellValue_refused [OF cellPos_26_refused])
  then show ?thesis
    unfolding ExportToExcel_def Let_def by (simp add: writeData_27_headers [OF assms])
qed

text \<open>
  Claim C9. For every header order the workbook is to hold the supplied values in the
  supplied column order. The exporter names the column of header \<open>j\<close> by the single
  character \<open>'A' + j\<close> and drops the error of \<open>SetCellValue\<close>. With 27 headers the
  reference of the 27th column in sheet row 4 is \<open>[4\<close>, which the library refuses: the
  value \<open>late\<close> supplied for that column is in no cell of the first 28 columns and 5
  rows, the cells of the 27th column of the sheet, AA3 and AA4, are empty, and the
  workbook is the one of the first 26 headers, while column Z holds its header and its
  value.
\<close>

theorem ExportToExcel_27th_column_lost:
  "(case ExportToExcel exampleEnv [[''notes'' \<mapsto> StringValue ''late'']]
           (replicate 26 ''customer_name'' @ [''notes'']) ''T'' of
      Inl e \<Rightarrow> False
    | Inr (filename, f) \<Rightarrow>
        index_map [''notes'' \<mapsto> StringValue ''late'']
          ((replicate 26 ''customer_name'' @ [''notes'']) ! 26) = StringValue ''late''
        \<and> cellPos 26 4 = ''[4''
        \<and> snd (SetCellValue NewFile (cellPos 26 4) (StringValue ''late''))
            = Some (InvalidCellName ''[4'')
        \<and> columnName 26 = ''AA''
        \<and> readCell f 26 4 = None
        \<and> readCell f 26 3 = None
        \<and> filter (\<lambda>pos. sheet f pos = Some (StringValue ''late''))
             (List.product [1..<29] [1..<6]) = []
        \<and> readCell f 25 4 = Some Nil
        \<and> readCell f 25 3 = Some (StringValue ''customer_name''))
   \<and> ExportToExcel exampleEnv [[''notes'' \<mapsto> StringValue ''late'']]
         (replicate 26 ''customer_name'' @ [''notes'']) ''T''
       = ExportToExcel exampleEnv [[''notes'' \<mapsto> StringValue ''late'']]
           (replicate 26 ''customer_name'') ''T''"
proof -
  have cells: "(case ExportToExcel exampleEnv [[''notes'' \<mapsto> StringValue ''late'']]
           (replicate 26 ''customer_name'' @ [''notes'']) ''T'' of
      Inl e \<Rightarrow> False
    | Inr (filename, f) \<Rightarrow>
        index_map [''notes'' \<mapsto> StringValue ''late'']
          ((replicate 26 ''customer_name'' @ [''notes'']) ! 26) = StringValue ''late''
        \<and> cellPos 26 4 = ''[4''
        \<and> snd (SetCellValue NewFile (cellPos 26 4) (StringValue ''late''))
            = Some (InvalidCellName ''[4'')
        \<and> columnName 26 = ''AA''
        \<and> readCell f 26 4 = None
        \<and> readCell f 26 3 = None
        \<and> filter (\<lambda>pos. sheet f pos = Some (StringValue ''late''))
             (List.product [1..<29] [1..<6]) = []
        \<and> readCell f 25 4 = Some Nil
        \<and> readCell f 25 3 = Some (StringValue ''customer_name''))"
    by code_simp
  have "length (replicate 26 ''customer_name'') = 26" by simp
  from ExportToExcel_27_headers [OF this] cells show ?thesis by simp
qed

section \<open>Report titles\<close>

lemma export_title:
  assumes "fst (ExportInventoryReport env w userID departmentID request) = Inr r"
  shows "\<exists>f t. window env request = Inr (f, t)
           \<and> fileReportName r = exportTitle f t
           \<and> cells (FileDetal r) ''A1'' = Some (StringValue (fileReportName r))"
proof (cases "window env request")
  case (Inl err)
  then show ?thesis using assms by (simp add: window_Inl)
next
  case (Inr p)
  obtain f t where "p = (f, t)" by (cases p)
  with Inr have W: "window env request = Inr (f, t)" by simp
  have len: "length exportHeaders \<le> 26" by (simp add: exportHeaders_def)
  show ?thesis
  proof (cases "GetInventoryReport (erpDB w) f t departmentID")
    case (Inl e)
    then show ?thesis using assms by (simp add: export_run [OF W] Let_def)
  next
    case items: (Inr items)
    show ?thesis
    proof (cases "ExportToExcel env (map itemRow items) exportHeaders (exportTitle f t)")
      case (Inl e)
      then show ?thesis using assms items
        by (simp add: export_run [OF W] Let_def split: if_splits)
    next
      case (Inr q)
      obtain filePath fileDetail where q: "q = (filePath, fileDetail)" by (cases q)
      with Inr have E: "ExportToExcel env (map itemRow items) exportHeaders (exportTitle f t)
                        = Inr (filePath, fileDetail)" by simp
      have "cells fileDetail ''A1'' = Some (StringValue (exportTitle f t))"
        by (rule exported_title_cell [OF E len])
      then show ?thesis using assms items E W
        by (auto simp: export_run [OF W] Let_def split: if_splits)
    qed
  qed
qed

text \<open>
  Claim C8, as the code has it. The view's title, which the handler builds from the
  request as it came in, is \<open>Report: \<close> followed by the Vietnamese label of the period
  when a period was supplied, and otherwise embeds the two dates of the request in the
  form day/month/year. The export's title never embeds a label: it is always
  \<open>Export Sales 230 from ... to ...\<close> with the two dates of the resolved window, also for
  a request with a period, and it is the content of cell A1 of the file.
\<close>

theorem report_titles:
  "(Period request = Some period \<and> period \<noteq> [] \<longrightarrow>
      reportTitle request = ''Report: '' @ formatPeriod period)
   \<and> formatPeriod ''7days'' =
       ''7 ng'' @ [CHR 0xC3, CHR 0xA0] @ ''y g'' @ [CHR 0xE1, CHR 0xBA, CHR 0xA7] @ ''n nh''
       @ [CHR 0xE1, CHR 0xBA, CHR 0xA5] @ ''t''
   \<and> formatPeriod ''30days'' =
       ''30 ng'' @ [CHR 0xC3, CHR 0xA0] @ ''y g'' @ [CHR 0xE1, CHR 0xBA, CHR 0xA7] @ ''n nh''
       @ [CHR 0xE1, CHR 0xBA, CHR 0xA5] @ ''t''
   \<and> formatPeriod ''3months'' =
       ''3 th'' @ [CHR 0xC3, CHR 0xA1] @ ''ng g'' @ [CHR 0xE1, CHR 0xBA, CHR 0xA7] @ ''n nh''
       @ [CHR 0xE1, CHR 0xBA, CHR 0xA5] @ ''t''
   \<and> formatPeriod ''currentmonth'' =
       ''Th'' @ [CHR 0xC3, CHR 0xA1] @ ''ng hi'' @ [CHR 0xE1, CHR 0xBB, CHR 0x87] @ ''n t''
       @ [CHR 0xE1, CHR 0xBA, CHR 0xA1] @ ''i''
   \<and> formatPeriod ''lastmonth'' =
       ''Th'' @ [CHR 0xC3, CHR 0xA1] @ ''ng tr'' @ [CHR 0xC6, CHR 0xB0, CHR 0xE1, CHR 0xBB, CHR 0x9B]
       @ ''c''
   \<and> ((Period request = None \<or> Period request = Some [])
        \<and> FromDate request = Some fromD \<and> ToDate request = Some toD
        \<and> \<not> IsZero fromD \<and> \<not> IsZero toD \<longrightarrow>
        reportTitle request =
          ''Report from '' @ Format_02_01_2006 fromD @ '' to '' @ Format_02_01_2006 toD)
   \<and> (fst (ReportHandler_GetInventoryReportData env w userID departmentID request)
         = SuccessResponse status body \<longrightarrow>
        ReportName body = reportTitle request)
   \<and> (fst (ExportInventoryReport env w userID departmentID request) = Inr r \<longrightarrow>
        (\<exists>f t. window env request = Inr (f, t)
           \<and> fileReportName r =
               ''Export Sales 230 from '' @ Format_02_01_2006 f @ '' to ''
               @ Format_02_01_2006 t
           \<and> cells (FileDetal r) ''A1'' = Some (StringValue (fileReportName r))))"
proof -
  have period: "Period request = Some period \<and> period \<noteq> [] \<longrightarrow>
      reportTitle request = ''Report: '' @ formatPeriod period"
    by (simp add: reportTitle_def)
  have labels:
    "formatPeriod ''7days'' =
       ''7 ng'' @ [CHR 0xC3, CHR 0xA0] @ ''y g'' @ [CHR 0xE1, CHR 0xBA, CHR 0xA7] @ ''n nh''
       @ [CHR 0xE1, CHR 0xBA, CHR 0xA5] @ ''t''"
    "formatPeriod ''30days'' =
       ''30 ng'' @ [CHR 0xC3, CHR 0xA0] @ ''y g'' @ [CHR 0xE1, CHR 0xBA, CHR 0xA7] @ ''n nh''
       @ [CHR 0xE1, CHR 0xBA, CHR 0xA5] @ ''t''"
    "formatPeriod ''3months'' =
       ''3 th'' @ [CHR 0xC3, CHR 0xA1] @ ''ng g'' @ [CHR 0xE1, CHR 0xBA, CHR 0xA7] @ ''n nh''
       @ [CHR 0xE1, CHR 0xBA, CHR 0xA5] @ ''t''"
    "formatPeriod ''currentmonth'' =
       ''Th'' @ [CHR 0xC3, CHR 0xA1] @ ''ng hi'' @ [CHR 0xE1, CHR 0xBB, CHR 0x87] @ ''n t''
       @ [CHR 0xE1, CHR 0xBA, CHR 0xA1] @ ''i''"
    "formatPeriod ''lastmonth'' =
       ''Th'' @ [CHR 0xC3, CHR 0xA1] @ ''ng tr'' @ [CHR 0xC6, CHR 0xB0, CHR 0xE1, CHR 0xBB, CHR 0x9B]
       @ ''c''"
    by (simp_all add: formatPeriod_def)
  have dates: "(Period request = None \<or> Period request = Some [])
        \<and> FromDate request = Some fromD \<and> ToDate request = Some toD
        \<and> \<not> IsZero fromD \<and> \<not> IsZero toD \<longrightarrow>
        reportTitle request =
          ''Report from '' @ Format_02_01_2006 fromD @ '' to '' @ Format_02_01_2006 toD"
    by (auto simp: reportTitle_def)
  have view: "fst (ReportHandler_GetInventoryReportData env w userID departmentID request)
         = SuccessResponse status body \<longrightarrow>
        ReportName body = reportTitle request"
    by (auto simp: ReportHandler_GetInventoryReportData_def recovered_def split: prod.splits sum.splits
        if_splits)
  have export: "fst (ExportInventoryReport env w userID departmentID request) = Inr r \<longrightarrow>
        (\<exists>f t. window env request = Inr (f, t)
           \<and> fileReportName r =
               ''Export Sales 230 from '' @ Format_02_01_2006 f @ '' to ''
               @ Format_02_01_2006 t
           \<and> cells (FileDetal r) ''A1'' = Some (StringValue (fileReportName r)))"
    using export_title [of env w userID departmentID request r]
    by (simp add: exportTitle_def)
  show ?thesis using period labels dates view export by blast
qed

theorem report_titles_witness:
  "reportTitle (periodRequest ''lastmonth'') =
     ''Report: Th'' @ [CHR 0xC3, CHR 0xA1] @ ''ng tr''
     @ [CHR 0xC6, CHR 0xB0, CHR 0xE1, CHR 0xBB, CHR 0x9B] @ ''c''
   \<and> reportTitle (explicitRequest (Date 2024 3 1 8 30 0 0 0) (Date 2024 3 10 0 0 0 0 0)) =
       ''Report from 01/03/2024 to 10/03/2024''"
proof -
  have a: "Period (periodRequest ''lastmonth'') = Some ''lastmonth'' \<and> ''lastmonth'' \<noteq> []"
    by (simp add: periodRequest_def)
  have b: "(Period (explicitRequest (Date 2024 3 1 8 30 0 0 0) (Date 2024 3 10 0 0 0 0 0)) = None
            \<or> Period (explicitRequest (Date 2024 3 1 8 30 0 0 0) (Date 2024 3 10 0 0 0 0 0))
               = Some [])
        \<and> FromDate (explicitRequest (Date 2024 3 1 8 30 0 0 0) (Date 2024 3 10 0 0 0 0 0))
            = Some (Date 2024 3 1 8 30 0 0 0)
        \<and> ToDate (explicitRequest (Date 2024 3 1 8 30 0 0 0) (Date 2024 3 10 0 0 0 0 0))
            = Some (Date 2024 3 10 0 0 0 0 0)
        \<and> \<not> IsZero (Date 2024 3 1 8 30 0 0 0) \<and> \<not> IsZero (Date 2024 3 10 0 0 0 0 0)"
    by code_simp
  have f: "Format_02_01_2006 (Date 2024 3 1 8 30 0 0 0) = ''01/03/2024''"
    "Format_02_01_2006 (Date 2024 3 10 0 0 0 0 0) = ''10/03/2024''"
    by code_simp+
  have l: "formatPeriod ''lastmonth'' =
       ''Th'' @ [CHR 0xC3, CHR 0xA1] @ ''ng tr'' @ [CHR 0xC6, CHR 0xB0, CHR 0xE1, CHR 0xBB, CHR 0x9B]
       @ ''c''"
    by (simp add: formatPeriod_def)
  have one: "reportTitle (periodRequest ''lastmonth'') =
     ''Report: '' @ formatPeriod ''lastmonth''"
    using report_titles [where request = "periodRequest ''lastmonth''"
            and period = "''lastmonth''"] a
    by blast
  have two: "reportTitle (explicitRequest (Date 2024 3 1 8 30 0 0 0) (Date 2024 3 10 0 0 0 0 0)) =
       ''Report from '' @ Format_02_01_2006 (Date 2024 3 1 8 30 0 0 0) @ '' to ''
       @ Format_02_01_2006 (Date 2024 3 10 0 0 0 0 0)"
    using report_titles
            [where request = "explicitRequest (Date 2024 3 1 8 30 0 0 0) (Date 2024 3 10 0 0 0 0 0)"
               and fromD = "Date 2024 3 1 8 30 0 0 0" and toD = "Date 2024 3 10 0 0 0 0 0"] b
    by blast
  show ?thesis using one two by (simp add: f l)
qed

text \<open>
  The claim as stated fails for the export: for a request with the period \<open>7days\<close> the
  export's title is the one with the two dates, and the label of the period is no part
  of it, while the view's title for the same request contains the label.
\<close>

theorem export_title_counterexample:
  "(case fst (ExportInventoryReport exampleEnv (exampleWorld [exampleRow]) 1 0
               (periodRequest ''7days'')) of
      Inl e \<Rightarrow> False
    | Inr r \<Rightarrow>
        fileReportName r = ''Export Sales 230 from 09/03/2024 to 15/03/2024''
        \<and> embeds (fileReportName r) (formatPeriod ''7days'') = False)
   \<and> embeds (reportTitle (periodRequest ''7days'')) (formatPeriod ''7days'') = True"
  by code_simp


end
